theory Spec2Isabelle
  imports Main "HOL-Library.Multiset" "HOL-Library.Word"
begin

section \<open>Strings\<close>

text \<open>
  A JavaScript string is a list of UTF-16 code units: \<open>length\<close> is \<^verbatim>\<open>.length\<close> and
  \<open>take\<close> is \<^verbatim>\<open>substring(0, n)\<close>, which may cut a surrogate pair. The literals of
  \<^verbatim>\<open>router.js\<close> are ASCII; \<open>js\<close> reads one from an Isabelle string.
\<close>

type_synonym utf16 = "16 word"

type_synonym jsstring = "utf16 list"

definition is_high :: "utf16 \<Rightarrow> bool" where
  "is_high u = (0xD800 \<le> u \<and> u \<le> 0xDBFF)"

definition is_low :: "utf16 \<Rightarrow> bool" where
  "is_low u = (0xDC00 \<le> u \<and> u \<le> 0xDFFF)"

definition js_char :: "char \<Rightarrow> utf16" where
  "js_char c = of_nat (of_char c)"

definition js :: "string \<Rightarrow> jsstring" where
  "js s = map js_char s"

text \<open>
  A character of a text that the database holds: one code unit that is neither zero nor a
  surrogate, or a high surrogate followed by a low one. The database holds no other text:
  it refuses a parameter with a zero code unit, and the driver, which sends UTF-8, sends
  U+FFFD for a surrogate that has no partner.
\<close>

definition pg_char_units :: "jsstring \<Rightarrow> bool" where
  "pg_char_units us =
     (case us of
        [u] \<Rightarrow> u \<noteq> 0 \<and> \<not> is_high u \<and> \<not> is_low u
      | [h, l] \<Rightarrow> is_high h \<and> is_low l
      | _ \<Rightarrow> False)"

typedef pgchar = "{us. pg_char_units us}"
  by (rule exI [of _ "[0x20]"]) (simp add: pg_char_units_def is_high_def is_low_def)

type_synonym pgtext = "pgchar list"

definition pgc :: "jsstring \<Rightarrow> pgchar" where
  "pgc us = Abs_pgchar (if pg_char_units us then us else [0xFFFD])"

text \<open>What the driver sends for a string, and the string that it reads back from a text.\<close>

fun to_pg :: "jsstring \<Rightarrow> pgtext" where
  "to_pg [] = []"
| "to_pg [u] = [pgc [u]]"
| "to_pg (u # v # r) =
     (if is_high u \<and> is_low v then pgc [u, v] # to_pg r else pgc [u] # to_pg (v # r))"

definition js_of :: "pgtext \<Rightarrow> jsstring" where
  "js_of t = concat (map Rep_pgchar t)"

definition pg_lit :: "string \<Rightarrow> pgtext" where
  "pg_lit s = to_pg (js s)"

section \<open>Values of the request and response bodies\<close>

text \<open>
  The handlers read fields of JSON bodies and of the query string, and test them with
  JavaScript's truthiness. A field is therefore a JavaScript value: \<open>JUndefined\<close> is a
  field that is absent, and a request without a parsed body has the body \<open>JUndefined\<close>.
  Numbers are the integers (no JSON number other than zero is falsy, and no handler
  computes with a number). An object is its list of properties, the first binding of a
  name being the one that counts.
\<close>

datatype jsval =
    JUndefined
  | JNull
  | JBool bool
  | JNum int
  | JStr jsstring
  | JArr "jsval list"
  | JObj "(jsstring \<times> jsval) list"

text \<open>\<^verbatim>\<open>!v\<close> is \<open>\<not> truthy v\<close>.\<close>

fun truthy :: "jsval \<Rightarrow> bool" where
  "truthy JUndefined = False"
| "truthy JNull = False"
| "truthy (JBool b) = b"
| "truthy (JNum n) = (n \<noteq> 0)"
| "truthy (JStr s) = (s \<noteq> [])"
| "truthy (JArr xs) = True"
| "truthy (JObj kvs) = True"

text \<open>What a handler can throw.\<close>

datatype db_error =
    ConnectionFailure
  | InvalidByteSequence
  | InvalidInteger
  | StringTooLong
  | NotNullViolation
  | UniqueViolation
  | ForeignKeyViolation

datatype exn =
    TypeError
  | BcryptError
  | StoreError db_error
  | FetchError
  | JsonError

text \<open>
  Reading a property, as a destructuring \<^verbatim>\<open>const { k } = v\<close> or an access
  \<^verbatim>\<open>v.k\<close> does, for the names that the handlers read (\<^verbatim>\<open>email\<close>,
  \<^verbatim>\<open>password\<close>, \<^verbatim>\<open>userInput\<close>, \<^verbatim>\<open>adviceOutput\<close>, \<^verbatim>\<open>title\<close>, \<^verbatim>\<open>error\<close>,
  \<^verbatim>\<open>message\<close>, \<^verbatim>\<open>candidates\<close>, \<^verbatim>\<open>length\<close>): it throws on \<^verbatim>\<open>undefined\<close> and
  \<^verbatim>\<open>null\<close>.
\<close>

fun get_prop :: "jsval \<Rightarrow> jsstring \<Rightarrow> exn + jsval" where
  "get_prop JUndefined k = Inl TypeError"
| "get_prop JNull k = Inl TypeError"
| "get_prop (JObj kvs) k = Inr (case map_of kvs k of Some v \<Rightarrow> v | None \<Rightarrow> JUndefined)"
| "get_prop (JArr xs) k = Inr (if k = js ''length'' then JNum (int (length xs)) else JUndefined)"
| "get_prop (JStr s) k = Inr (if k = js ''length'' then JNum (int (length s)) else JUndefined)"
| "get_prop v k = Inr JUndefined"

text \<open>An object with the given fields, for writing a body down.\<close>

definition obj :: "(string \<times> jsval) list \<Rightarrow> jsval" where
  "obj kvs = JObj (map (\<lambda>(k, v). (js k, v)) kvs)"

section \<open>The store\<close>

text \<open>
  The two tables, as the \<^verbatim>\<open>CREATE TABLE\<close> statements of \<^verbatim>\<open>router.js\<close> declare them.
  The column \<^verbatim>\<open>id\<close> of each table is \<open>users_id\<close> and \<open>chats_id\<close>.
  \<^verbatim>\<open>title\<close> is the only nullable column that a handler writes. A timestamp is a
  point of the store's clock.
\<close>

record user =
  users_id :: int
  email :: pgtext
  password :: pgtext

record chat =
  chats_id :: int
  user_id :: int
  title :: "pgtext option"
  user_input :: pgtext
  advice_output :: pgtext
  created_at :: nat
  updated_at :: nat

text \<open>
  The state of the store: the rows of both tables in the order of their insertion, the
  next value of each \<^verbatim>\<open>SERIAL\<close> sequence, and whether the pool reaches the database
  (when it does not, every \<^verbatim>\<open>pool.query\<close> rejects).
\<close>

record store =
  users :: "user list"
  chats :: "chat list"
  users_seq :: int
  chats_seq :: int
  online :: bool

text \<open>
  The projection \<^verbatim>\<open>id, title, user_input, advice_output, created_at, updated_at\<close>
  that every chat query selects or returns: a row of a response does not carry the owner.
  The response holds the string \<open>js_of\<close> of each text.
\<close>

record chat_row =
  r_id :: int
  r_title :: "pgtext option"
  r_user_input :: pgtext
  r_advice_output :: pgtext
  r_created_at :: nat
  r_updated_at :: nat

definition row_of :: "chat \<Rightarrow> chat_row" where
  "row_of c =
     \<lparr> r_id = chats_id c, r_title = title c, r_user_input = user_input c,
       r_advice_output = advice_output c, r_created_at = created_at c,
       r_updated_at = updated_at c \<rparr>"

text \<open>
  The collaborators that are not code of the repository, as parameters: the two
  functions of the bcrypt package on strings and the salt that \<^verbatim>\<open>bcrypt.hash\<close> draws
  in this call, the text that the database driver sends for a parameter that is neither
  null nor a string, and the database's reading of a text as an integer (for the
  \<^verbatim>\<open>:id\<close> of a path, which is compared with an integer column).
\<close>

record env =
  hashf :: "nat \<Rightarrow> jsstring \<Rightarrow> jsstring"
  salt :: nat
  cmpf :: "jsstring \<Rightarrow> jsstring \<Rightarrow> bool"
  to_text :: "jsval \<Rightarrow> jsstring"
  int4in :: "jsstring \<Rightarrow> int option"

text \<open>
  A query parameter as the driver prepares it: \<^verbatim>\<open>undefined\<close> and \<^verbatim>\<open>null\<close> are
  SQL \<^verbatim>\<open>NULL\<close> (\<open>None\<close>), a string is itself.
\<close>

fun prepareValue :: "env \<Rightarrow> jsval \<Rightarrow> jsstring option" where
  "prepareValue E JUndefined = None"
| "prepareValue E JNull = None"
| "prepareValue E (JStr s) = Some s"
| "prepareValue E v = Some (to_text E v)"

text \<open>
  Binding a text parameter: the database refuses a text that holds the character zero
  (invalid byte sequence), before the statement runs.
\<close>

definition bind_text :: "jsstring \<Rightarrow> db_error + pgtext" where
  "bind_text t = (if 0 \<in> set t then Inl InvalidByteSequence else Inr (to_pg t))"

definition bind_param :: "env \<Rightarrow> jsval \<Rightarrow> db_error + pgtext option" where
  "bind_param E v =
     (case prepareValue E v of
        None \<Rightarrow> Inr None
      | Some t \<Rightarrow> (case bind_text t of Inl e \<Rightarrow> Inl e | Inr x \<Rightarrow> Inr (Some x)))"

text \<open>
  \<^verbatim>\<open>bcrypt.hash(data, 10)\<close> and \<^verbatim>\<open>bcrypt.compare(data, hash)\<close> reject data that
  is not a string.
\<close>

fun bcrypt_hash :: "env \<Rightarrow> jsval \<Rightarrow> exn + jsstring" where
  "bcrypt_hash E (JStr p) = Inr (hashf E (salt E) p)"
| "bcrypt_hash E v = Inl BcryptError"


text \<open>
  A value assigned to a \<^verbatim>\<open>VARCHAR(255)\<close> column: longer than 255 characters it is
  an error, unless everything beyond is spaces, which are cut. The database applies this
  to the parameter when it plans the statement, before any row is read or written.
\<close>

definition varchar255 :: "pgtext \<Rightarrow> db_error + pgtext" where
  "varchar255 t =
     (if length t \<le> 255 then Inr t
      else if list_all (\<lambda>c. c = pgc [0x20]) (drop 255 t) then Inr (take 255 t)
      else Inl StringTooLong)"

definition nullable_varchar255 :: "pgtext option \<Rightarrow> db_error + pgtext option" where
  "nullable_varchar255 p =
     (case p of
        None \<Rightarrow> Inr None
      | Some t \<Rightarrow> (case varchar255 t of Inl e \<Rightarrow> Inl e | Inr t' \<Rightarrow> Inr (Some t')))"

subsection \<open>The statements on the table of users\<close>

text \<open>\<^verbatim>\<open>SELECT ... FROM users WHERE email = $1\<close>: no row equals \<^verbatim>\<open>NULL\<close>.\<close>

definition select_users_by_email :: "env \<Rightarrow> store \<Rightarrow> jsval \<Rightarrow> db_error + user list" where
  "select_users_by_email E s em =
     (if \<not> online s then Inl ConnectionFailure
      else case bind_param E em of
          Inl e \<Rightarrow> Inl e
        | Inr p \<Rightarrow> Inr (filter (\<lambda>u. Some (email u) = p) (users s)))"

text \<open>
  \<^verbatim>\<open>INSERT INTO users (email, password) VALUES ($1, $2)\<close>, under
  \<^verbatim>\<open>email VARCHAR(255) UNIQUE NOT NULL\<close> and \<^verbatim>\<open>password VARCHAR(255) NOT NULL\<close>.
  Once the statement runs, the value of the sequence is drawn, and it stays drawn when
  a constraint then refuses the row. The result is the outcome and the store.
\<close>

definition insert_user :: "env \<Rightarrow> store \<Rightarrow> jsval \<Rightarrow> jsval \<Rightarrow> (db_error + unit) \<times> store" where
  "insert_user E s em pw =
     (if \<not> online s then (Inl ConnectionFailure, s)
      else case bind_param E em of
          Inl e \<Rightarrow> (Inl e, s)
        | Inr pe \<Rightarrow>
      (case bind_param E pw of
          Inl e \<Rightarrow> (Inl e, s)
        | Inr pp \<Rightarrow>
      (case nullable_varchar255 pe of
          Inl e \<Rightarrow> (Inl e, s)
        | Inr ce \<Rightarrow>
      (case nullable_varchar255 pp of
          Inl e \<Rightarrow> (Inl e, s)
        | Inr cp \<Rightarrow>
      (let s1 = s\<lparr> users_seq := users_seq s + 1 \<rparr> in
       case (ce, cp) of
          (None, _) \<Rightarrow> (Inl NotNullViolation, s1)
        | (_, None) \<Rightarrow> (Inl NotNullViolation, s1)
        | (Some e, Some p) \<Rightarrow>
            if e \<in> email ` set (users s) then (Inl UniqueViolation, s1)
            else (Inr (),
                  s1\<lparr> users := users s @ [\<lparr> users_id = users_seq s, email = e, password = p \<rparr>] \<rparr>))))))"

section \<open>Responses\<close>

text \<open>
  \<open>Unhandled\<close> is the answer of the framework's default error handler to an error
  that a handler throws outside its \<^verbatim>\<open>try\<close>: status 500.
\<close>

datatype body =
    Message string
  | Error string
  | ErrorDetails jsval jsval
  | ErrorMessage string exn
  | Unhandled exn
  | Chats "chat_row list"
  | Chat chat_row
  | Json jsval

datatype response = Resp nat body

fun status :: "response \<Rightarrow> nat" where
  "status (Resp n b) = n"

section \<open>Authentication: POST /signup and POST /login\<close>

text \<open>
  \<^verbatim>\<open>app.post('/signup')\<close>: \<^verbatim>\<open>const { email, password } = req.body\<close> stands before
  the \<^verbatim>\<open>try\<close>; the hash and the insertion are inside it, and the \<^verbatim>\<open>catch\<close>
  answers 400 whatever was thrown.
\<close>

definition signup_try :: "env \<Rightarrow> store \<Rightarrow> jsval \<Rightarrow> jsval \<Rightarrow> (exn + response) \<times> store" where
  "signup_try E s em pw =
     (case bcrypt_hash E pw of
        Inl e \<Rightarrow> (Inl e, s)
      | Inr hashedPassword \<Rightarrow>
          (case insert_user E s em (JStr hashedPassword) of
             (Inl e, s') \<Rightarrow> (Inl (StoreError e), s')
           | (Inr u, s') \<Rightarrow> (Inr (Resp 201 (Message ''User registered successfully'')), s')))"

definition signup :: "env \<Rightarrow> store \<Rightarrow> jsval \<Rightarrow> response \<times> store" where
  "signup E s reqBody =
     (case get_prop reqBody (js ''email'') of
        Inl e \<Rightarrow> (Resp 500 (Unhandled e), s)
      | Inr em \<Rightarrow>
     (case get_prop reqBody (js ''password'') of
        Inl e \<Rightarrow> (Resp 500 (Unhandled e), s)
      | Inr pw \<Rightarrow>
     (case signup_try E s em pw of
        (Inr r, s') \<Rightarrow> (r, s')
      | (Inl e, s') \<Rightarrow> (Resp 400 (Error ''User already exists or invalid data''), s'))))"



section \<open>Conversations: the statements on the table of chats\<close>

text \<open>
  \<^verbatim>\<open>SELECT ... FROM chats WHERE user_id = $1 ORDER BY updated_at DESC\<close>: a stable
  sort, so that rows of equal \<^verbatim>\<open>updated_at\<close> come in the order of the table.
\<close>

definition select_chats_by_user :: "store \<Rightarrow> int \<Rightarrow> db_error + chat_row list" where
  "select_chats_by_user s userId =
     (if \<not> online s then Inl ConnectionFailure
      else Inr (map row_of
             (sort_key (\<lambda>c. - int (updated_at c)) (filter (\<lambda>c. user_id c = userId) (chats s)))))"

text \<open>
  The \<^verbatim>\<open>WHERE id = $1 AND user_id = $2\<close> of the three statements on one chat. The
  first parameter is the text of the path; a text that is no integer fails the statement.
\<close>

definition owned :: "int \<Rightarrow> int \<Rightarrow> chat \<Rightarrow> bool" where
  "owned i userId c = (chats_id c = i \<and> user_id c = userId)"

definition select_chat :: "env \<Rightarrow> store \<Rightarrow> jsstring \<Rightarrow> int \<Rightarrow> db_error + chat_row list" where
  "select_chat E s idp userId =
     (if \<not> online s then Inl ConnectionFailure
      else case int4in E idp of
          None \<Rightarrow> Inl InvalidInteger
        | Some i \<Rightarrow> Inr (map row_of (filter (owned i userId) (chats s))))"

text \<open>
  \<^verbatim>\<open>INSERT INTO chats (user_id, title, user_input, advice_output) VALUES ... RETURNING ...\<close>:
  the parameters are bound and the title is cut to its column; then the statement runs:
  \<^verbatim>\<open>id\<close> is the next value of the sequence, both timestamps default to
  \<^verbatim>\<open>CURRENT_TIMESTAMP\<close> (\<open>now\<close>), \<^verbatim>\<open>user_id\<close> references a row of users.
\<close>

definition insert_chat ::
  "env \<Rightarrow> store \<Rightarrow> nat \<Rightarrow> int \<Rightarrow> jsval \<Rightarrow> jsval \<Rightarrow> jsval \<Rightarrow> (db_error + chat_row) \<times> store" where
  "insert_chat E s now userId ti ui ao =
     (if \<not> online s then (Inl ConnectionFailure, s)
      else case bind_param E ti of
          Inl e \<Rightarrow> (Inl e, s)
        | Inr pt \<Rightarrow>
      (case bind_param E ui of
          Inl e \<Rightarrow> (Inl e, s)
        | Inr pu \<Rightarrow>
      (case bind_param E ao of
          Inl e \<Rightarrow> (Inl e, s)
        | Inr pa \<Rightarrow>
      (case nullable_varchar255 pt of
          Inl e \<Rightarrow> (Inl e, s)
        | Inr ct \<Rightarrow>
      (let s1 = s\<lparr> chats_seq := chats_seq s + 1 \<rparr> in
       case (pu, pa) of
          (None, _) \<Rightarrow> (Inl NotNullViolation, s1)
        | (_, None) \<Rightarrow> (Inl NotNullViolation, s1)
        | (Some u, Some a) \<Rightarrow>
            if userId \<notin> users_id ` set (users s) then (Inl ForeignKeyViolation, s1)
            else
              let c = \<lparr> chats_id = chats_seq s, user_id = userId, title = ct,
                        user_input = u, advice_output = a,
                        created_at = now, updated_at = now \<rparr>
              in (Inr (row_of c), s1\<lparr> chats := chats s @ [c] \<rparr>))))))"

text \<open>
  The \<^verbatim>\<open>SET\<close> list that the update handler builds: the columns it names, each with
  the value pushed for it. The values are bound in their order, and the title is cut to
  its column, before any row is matched.
\<close>

datatype column = Title | UserInput | AdviceOutput

fun bind_updates :: "env \<Rightarrow> (column \<times> jsval) list \<Rightarrow> db_error + (column \<times> pgtext option) list" where
  "bind_updates E [] = Inr []"
| "bind_updates E ((col, v) # ups) =
     (case bind_param E v of
        Inl e \<Rightarrow> Inl e
      | Inr p \<Rightarrow> (case bind_updates E ups of Inl e \<Rightarrow> Inl e | Inr ps \<Rightarrow> Inr ((col, p) # ps)))"

fun coerce_updates :: "(column \<times> pgtext option) list \<Rightarrow> db_error + (column \<times> pgtext option) list" where
  "coerce_updates [] = Inr []"
| "coerce_updates ((col, p) # ps) =
     (case (if col = Title then nullable_varchar255 p else Inr p) of
        Inl e \<Rightarrow> Inl e
      | Inr p' \<Rightarrow> (case coerce_updates ps of Inl e \<Rightarrow> Inl e | Inr ps' \<Rightarrow> Inr ((col, p') # ps')))"

fun assign :: "chat \<Rightarrow> column \<times> pgtext option \<Rightarrow> db_error + chat" where
  "assign c (Title, p) = Inr (c\<lparr> title := p \<rparr>)"
| "assign c (UserInput, None) = Inl NotNullViolation"
| "assign c (UserInput, Some u) = Inr (c\<lparr> user_input := u \<rparr>)"
| "assign c (AdviceOutput, None) = Inl NotNullViolation"
| "assign c (AdviceOutput, Some a) = Inr (c\<lparr> advice_output := a \<rparr>)"

fun assign_all :: "chat \<Rightarrow> (column \<times> pgtext option) list \<Rightarrow> db_error + chat" where
  "assign_all c [] = Inr c"
| "assign_all c (a # as) =
     (case assign c a of Inl e \<Rightarrow> Inl e | Inr c' \<Rightarrow> assign_all c' as)"

text \<open>
  The new value of a row under
  \<^verbatim>\<open>SET <updates>, updated_at = CURRENT_TIMESTAMP\<close>.
\<close>

definition set_row :: "nat \<Rightarrow> (column \<times> pgtext option) list \<Rightarrow> chat \<Rightarrow> db_error + chat" where
  "set_row now updates c =
     (case assign_all c updates of
        Inl e \<Rightarrow> Inl e
      | Inr c' \<Rightarrow> Inr (c'\<lparr> updated_at := now \<rparr>))"

text \<open>
  The rows of an \<^verbatim>\<open>UPDATE ... WHERE ... RETURNING\<close>: every row that satisfies \<open>P\<close> is
  replaced by its image under \<open>f\<close>, and the statement fails when a new row violates a
  constraint. The result is the table and the rows returned.
\<close>

fun update_where ::
  "(chat \<Rightarrow> bool) \<Rightarrow> (chat \<Rightarrow> db_error + chat) \<Rightarrow> chat list \<Rightarrow> db_error + chat list \<times> chat list" where
  "update_where P f [] = Inr ([], [])"
| "update_where P f (c # cs) =
     (if P c then
        (case f c of
           Inl e \<Rightarrow> Inl e
         | Inr c' \<Rightarrow>
             (case update_where P f cs of
                Inl e \<Rightarrow> Inl e
              | Inr (tbl, ret) \<Rightarrow> Inr (c' # tbl, c' # ret)))
      else
        (case update_where P f cs of
           Inl e \<Rightarrow> Inl e
         | Inr (tbl, ret) \<Rightarrow> Inr (c # tbl, ret)))"

text \<open>
  \<^verbatim>\<open>UPDATE chats SET <updates>, updated_at = CURRENT_TIMESTAMP WHERE id = $n AND user_id = $m RETURNING ...\<close>.
  A statement that fails leaves the table as it was.
\<close>

definition update_chats ::
  "env \<Rightarrow> store \<Rightarrow> nat \<Rightarrow> (column \<times> jsval) list \<Rightarrow> jsstring \<Rightarrow> int \<Rightarrow> (db_error + chat_row list) \<times> store" where
  "update_chats E s now updates idp userId =
     (if \<not> online s then (Inl ConnectionFailure, s)
      else case bind_updates E updates of
          Inl e \<Rightarrow> (Inl e, s)
        | Inr ps \<Rightarrow>
      (case int4in E idp of
          None \<Rightarrow> (Inl InvalidInteger, s)
        | Some i \<Rightarrow>
      (case coerce_updates ps of
          Inl e \<Rightarrow> (Inl e, s)
        | Inr cs \<Rightarrow>
      (case update_where (owned i userId) (set_row now cs) (chats s) of
          Inl e \<Rightarrow> (Inl e, s)
        | Inr (tbl, ret) \<Rightarrow> (Inr (map row_of ret), s\<lparr> chats := tbl \<rparr>)))))"

text \<open>\<^verbatim>\<open>DELETE FROM chats WHERE id = $1 AND user_id = $2 RETURNING id\<close>.\<close>

definition delete_chats :: "env \<Rightarrow> store \<Rightarrow> jsstring \<Rightarrow> int \<Rightarrow> (db_error + int list) \<times> store" where
  "delete_chats E s idp userId =
     (if \<not> online s then (Inl ConnectionFailure, s)
      else case int4in E idp of
          None \<Rightarrow> (Inl InvalidInteger, s)
        | Some i \<Rightarrow>
            (Inr (map chats_id (filter (owned i userId) (chats s))),
             s\<lparr> chats := filter (\<lambda>c. \<not> owned i userId c) (chats s) \<rparr>))"

section \<open>Conversations: the handlers\<close>

text \<open>
  Each handler is its \<^verbatim>\<open>try\<close> block, a computation that returns a response or
  throws, under its \<^verbatim>\<open>catch\<close>, which answers 500. The destructuring of
  \<^verbatim>\<open>req.body\<close> is the first statement of the block; \<^verbatim>\<open>req.query\<close> and
  \<^verbatim>\<open>req.params\<close> are always objects, so a handler that reads them takes their fields.
  A handler that writes returns the store as well.
\<close>

definition catch500 :: "exn + response \<Rightarrow> response" where
  "catch500 r = (case r of Inr x \<Rightarrow> x | Inl e \<Rightarrow> Resp 500 (Error ''Server error''))"

definition catch500s :: "(exn + response) \<times> store \<Rightarrow> response \<times> store" where
  "catch500s r =
     (case r of (Inr x, s') \<Rightarrow> (x, s') | (Inl e, s') \<Rightarrow> (Resp 500 (Error ''Server error''), s'))"

text \<open>\<^verbatim>\<open>app.get('/api/chats')\<close>\<close>

definition list_chats :: "env \<Rightarrow> store \<Rightarrow> jsval \<Rightarrow> response" where
  "list_chats E s em =
     catch500
       (if \<not> truthy em then Inr (Resp 400 (Error ''Email is required''))
        else case select_users_by_email E s em of
            Inl e \<Rightarrow> Inl (StoreError e)
          | Inr [] \<Rightarrow> Inr (Resp 404 (Error ''User not found''))
          | Inr (u # rest) \<Rightarrow>
              (let userId = users_id u in
               case select_chats_by_user s userId of
                 Inl e \<Rightarrow> Inl (StoreError e)
               | Inr rows \<Rightarrow> Inr (Resp 200 (Chats rows))))"

text \<open>\<^verbatim>\<open>app.get('/api/chats/:id')\<close>\<close>

definition get_chat :: "env \<Rightarrow> store \<Rightarrow> jsstring \<Rightarrow> jsval \<Rightarrow> response" where
  "get_chat E s idp em =
     catch500
       (if \<not> truthy em then Inr (Resp 400 (Error ''Email is required''))
        else case select_users_by_email E s em of
            Inl e \<Rightarrow> Inl (StoreError e)
          | Inr [] \<Rightarrow> Inr (Resp 404 (Error ''User not found''))
          | Inr (u # rest) \<Rightarrow>
              (let userId = users_id u in
               case select_chat E s idp userId of
                 Inl e \<Rightarrow> Inl (StoreError e)
               | Inr [] \<Rightarrow> Inr (Resp 404 (Error ''Chat not found''))
               | Inr (r # others) \<Rightarrow> Inr (Resp 200 (Chat r))))"

text \<open>
  \<^verbatim>\<open>app.post('/api/chats')\<close>. \<^verbatim>\<open>title || userInput.substring(0, 50) + (...)\<close>
  evaluates its right side only when \<^verbatim>\<open>title\<close> is falsy, and there only a string has
  a \<^verbatim>\<open>substring\<close> method.
\<close>

definition chatTitle :: "jsval \<Rightarrow> jsval \<Rightarrow> exn + jsval" where
  "chatTitle ti userInput =
     (if truthy ti then Inr ti
      else case userInput of
          JStr u \<Rightarrow> Inr (JStr (take 50 u @ (if length u > 50 then js ''...'' else [])))
        | _ \<Rightarrow> Inl TypeError)"

definition create_chat_fields ::
  "env \<Rightarrow> store \<Rightarrow> nat \<Rightarrow> jsval \<Rightarrow> jsval \<Rightarrow> jsval \<Rightarrow> jsval \<Rightarrow> (exn + response) \<times> store" where
  "create_chat_fields E s now em userInput adviceOutput ti =
     (if \<not> truthy em \<or> \<not> truthy userInput \<or> \<not> truthy adviceOutput then
        (Inr (Resp 400 (Error ''Email, userInput, and adviceOutput are required'')), s)
      else case select_users_by_email E s em of
          Inl e \<Rightarrow> (Inl (StoreError e), s)
        | Inr [] \<Rightarrow> (Inr (Resp 404 (Error ''User not found'')), s)
        | Inr (u # rest) \<Rightarrow>
            (let userId = users_id u in
             case chatTitle ti userInput of
               Inl e \<Rightarrow> (Inl e, s)
             | Inr t \<Rightarrow>
                 (case insert_chat E s now userId t userInput adviceOutput of
                    (Inl e, s') \<Rightarrow> (Inl (StoreError e), s')
                  | (Inr r, s') \<Rightarrow> (Inr (Resp 201 (Chat r)), s'))))"

definition create_chat :: "env \<Rightarrow> store \<Rightarrow> nat \<Rightarrow> jsval \<Rightarrow> response \<times> store" where
  "create_chat E s now reqBody =
     catch500s
       (case get_prop reqBody (js ''email'') of
          Inl e \<Rightarrow> (Inl e, s)
        | Inr em \<Rightarrow>
       (case get_prop reqBody (js ''userInput'') of
          Inl e \<Rightarrow> (Inl e, s)
        | Inr userInput \<Rightarrow>
       (case get_prop reqBody (js ''adviceOutput'') of
          Inl e \<Rightarrow> (Inl e, s)
        | Inr adviceOutput \<Rightarrow>
       (case get_prop reqBody (js ''title'') of
          Inl e \<Rightarrow> (Inl e, s)
        | Inr ti \<Rightarrow> create_chat_fields E s now em userInput adviceOutput ti))))"

text \<open>\<^verbatim>\<open>app.put('/api/chats/:id')\<close>\<close>

definition build_updates :: "jsval \<Rightarrow> jsval \<Rightarrow> jsval \<Rightarrow> (column \<times> jsval) list" where
  "build_updates ti userInput adviceOutput =
     (if ti \<noteq> JUndefined then [(Title, ti)] else []) @
     (if userInput \<noteq> JUndefined then [(UserInput, userInput)] else []) @
     (if adviceOutput \<noteq> JUndefined then [(AdviceOutput, adviceOutput)] else [])"

definition update_chat_fields ::
  "env \<Rightarrow> store \<Rightarrow> nat \<Rightarrow> jsstring \<Rightarrow> jsval \<Rightarrow> jsval \<Rightarrow> jsval \<Rightarrow> jsval \<Rightarrow> (exn + response) \<times> store" where
  "update_chat_fields E s now idp em userInput adviceOutput ti =
     (if \<not> truthy em then (Inr (Resp 400 (Error ''Email is required'')), s)
      else case select_users_by_email E s em of
          Inl e \<Rightarrow> (Inl (StoreError e), s)
        | Inr [] \<Rightarrow> (Inr (Resp 404 (Error ''User not found'')), s)
        | Inr (u # rest) \<Rightarrow>
            (let userId = users_id u;
                 updates = build_updates ti userInput adviceOutput
             in if length updates = 0 then (Inr (Resp 400 (Error ''No fields to update'')), s)
                else case update_chats E s now updates idp userId of
                    (Inl e, s') \<Rightarrow> (Inl (StoreError e), s')
                  | (Inr [], s') \<Rightarrow> (Inr (Resp 404 (Error ''Chat not found'')), s')
                  | (Inr (r # others), s') \<Rightarrow> (Inr (Resp 200 (Chat r)), s')))"

definition update_chat :: "env \<Rightarrow> store \<Rightarrow> nat \<Rightarrow> jsstring \<Rightarrow> jsval \<Rightarrow> response \<times> store" where
  "update_chat E s now idp reqBody =
     catch500s
       (case get_prop reqBody (js ''email'') of
          Inl e \<Rightarrow> (Inl e, s)
        | Inr em \<Rightarrow>
       (case get_prop reqBody (js ''userInput'') of
          Inl e \<Rightarrow> (Inl e, s)
        | Inr userInput \<Rightarrow>
       (case get_prop reqBody (js ''adviceOutput'') of
          Inl e \<Rightarrow> (Inl e, s)
        | Inr adviceOutput \<Rightarrow>
       (case get_prop reqBody (js ''title'') of
          Inl e \<Rightarrow> (Inl e, s)
        | Inr ti \<Rightarrow> update_chat_fields E s now idp em userInput adviceOutput ti))))"

text \<open>\<^verbatim>\<open>app.delete('/api/chats/:id')\<close>\<close>

definition delete_chat :: "env \<Rightarrow> store \<Rightarrow> jsstring \<Rightarrow> jsval \<Rightarrow> response \<times> store" where
  "delete_chat E s idp em =
     catch500s
       (if \<not> truthy em then (Inr (Resp 400 (Error ''Email is required'')), s)
        else case select_users_by_email E s em of
            Inl e \<Rightarrow> (Inl (StoreError e), s)
          | Inr [] \<Rightarrow> (Inr (Resp 404 (Error ''User not found'')), s)
          | Inr (u # rest) \<Rightarrow>
              (let userId = users_id u in
               case delete_chats E s idp userId of
                 (Inl e, s') \<Rightarrow> (Inl (StoreError e), s')
               | (Inr [], s') \<Rightarrow> (Inr (Resp 404 (Error ''Chat not found'')), s')
               | (Inr (r # others), s') \<Rightarrow>
                   (Inr (Resp 200 (Message ''Chat deleted successfully'')), s')))"

section \<open>The advice proxy: POST /api/generate\<close>

text \<open>
  The provider, as a parameter: the credential of the environment, and what
  \<^verbatim>\<open>fetch\<close> does with a URL and a question: it rejects, or it replies with a status
  and a body that \<^verbatim>\<open>gRes.json()\<close> parses (\<open>Some\<close>) or not. The text sent is the fixed
  template around the question, so a call is recorded as its URL and its question.
\<close>

datatype fetch_result = Rejected | Replied nat "jsval option"

record provider =
  GEMINI_API_KEY :: "string option"
  fetch :: "string \<Rightarrow> jsval \<Rightarrow> fetch_result"

text \<open>\<^verbatim>\<open>data.error?.message || 'Gemini API error'\<close>\<close>

definition error_message :: "jsval \<Rightarrow> exn + jsval" where
  "error_message data =
     (case get_prop data (js ''error'') of
        Inl e \<Rightarrow> Inl e
      | Inr err \<Rightarrow>
          (case (if err = JUndefined \<or> err = JNull then Inr JUndefined
                 else get_prop err (js ''message'')) of
             Inl e \<Rightarrow> Inl e
           | Inr m \<Rightarrow> Inr (if truthy m then m else JStr (js ''Gemini API error''))))"

text \<open>\<^verbatim>\<open>!data.candidates || data.candidates.length === 0\<close>\<close>

definition no_candidates :: "jsval \<Rightarrow> exn + bool" where
  "no_candidates data =
     (case get_prop data (js ''candidates'') of
        Inl e \<Rightarrow> Inl e
      | Inr c \<Rightarrow>
          if \<not> truthy c then Inr True
          else (case get_prop c (js ''length'') of
                  Inl e \<Rightarrow> Inl e
                | Inr n \<Rightarrow> Inr (n = JNum 0)))"

definition geminiUrl :: "string \<Rightarrow> string" where
  "geminiUrl key =
     ''https://generativelanguage.googleapis.com/v1beta/models/gemini-1.5-flash:generateContent?key='' @ key"

text \<open>
  \<^verbatim>\<open>app.post('/api/generate')\<close>, with \<^verbatim>\<open>const { userInput } = req.body || {}\<close>
  inside the \<^verbatim>\<open>try\<close>. The result is the response and the calls made to the
  provider, in order.
\<close>

definition generate_try :: "provider \<Rightarrow> jsval \<Rightarrow> (exn + response) \<times> (string \<times> jsval) list" where
  "generate_try G reqBody =
     (case get_prop (if truthy reqBody then reqBody else JObj []) (js ''userInput'') of
        Inl e \<Rightarrow> (Inl e, [])
      | Inr userInput \<Rightarrow>
     (if \<not> truthy userInput then (Inr (Resp 400 (Error ''userInput is required'')), [])
      else case GEMINI_API_KEY G of
          None \<Rightarrow> (Inr (Resp 500 (Error ''API key not configured'')), [])
        | Some key \<Rightarrow>
            if key = [] then (Inr (Resp 500 (Error ''API key not configured'')), [])
            else
              (case fetch G (geminiUrl key) userInput of
                 Rejected \<Rightarrow> Inl FetchError
               | Replied st None \<Rightarrow> Inl JsonError
               | Replied st (Some data) \<Rightarrow>
                   if \<not> (200 \<le> st \<and> st \<le> 299) then
                     (case error_message data of
                        Inl e \<Rightarrow> Inl e
                      | Inr m \<Rightarrow> Inr (Resp st (ErrorDetails m data)))
                   else
                     (case no_candidates data of
                        Inl e \<Rightarrow> Inl e
                      | Inr none \<Rightarrow>
                          if none then
                            Inr (Resp 500 (ErrorDetails (JStr (js ''No response generated'')) data))
                          else Inr (Resp 200 (Json data))),
               [(geminiUrl key, userInput)])))"

definition generate :: "provider \<Rightarrow> jsval \<Rightarrow> response \<times> (string \<times> jsval) list" where
  "generate G reqBody =
     (case generate_try G reqBody of
        (Inr r, calls) \<Rightarrow> (r, calls)
      | (Inl e, calls) \<Rightarrow> (Resp 500 (ErrorMessage ''Internal server error'' e), calls))"

section \<open>Well-formed stores and sample data\<close>

text \<open>
  What the constraints of the two tables keep true of every store that the handlers can
  reach: emails are unique, the ids of each table are unique and below the next value of
  their sequence, and the owner of every chat is a row of users.
\<close>

definition wf_store :: "store \<Rightarrow> bool" where
  "wf_store s =
     (distinct (map email (users s)) \<and> distinct (map users_id (users s)) \<and>
      distinct (map chats_id (chats s)) \<and>
      (\<forall>u \<in> set (users s). users_id u < users_seq s) \<and>
      (\<forall>c \<in> set (chats s). chats_id c < chats_seq s \<and> user_id c \<in> users_id ` set (users s)))"

text \<open>The chat rows that a response carries.\<close>

fun returned_rows :: "response \<Rightarrow> chat_row list" where
  "returned_rows (Resp n (Chats rows)) = rows"
| "returned_rows (Resp n (Chat r)) = [r]"
| "returned_rows (Resp n b) = []"


text \<open>
  A sample environment and store, for the concrete instances below: two accounts, three
  chats of which the second account owns the second.
\<close>

definition sample_env :: env where
  "sample_env =
     \<lparr> hashf = (\<lambda>sl p. js ''hash:'' @ p),
       salt = 7,
       cmpf = (\<lambda>p h. h = js ''hash:'' @ p),
       to_text = (\<lambda>v. js ''{}''),
       int4in = (\<lambda>t. if t = js ''1'' then Some 1 else if t = js ''2'' then Some 2
                      else if t = js ''3'' then Some 3 else None) \<rparr>"

definition alice :: user where
  "alice = \<lparr> users_id = 1, email = pg_lit ''a@x.com'', password = pg_lit ''hash:pw1'' \<rparr>"

definition bob :: user where
  "bob = \<lparr> users_id = 2, email = pg_lit ''b@x.com'', password = pg_lit ''hash:pw2'' \<rparr>"

definition chat1 :: chat where
  "chat1 = \<lparr> chats_id = 1, user_id = 1, title = Some (pg_lit ''I feel nauseous''),
             user_input = pg_lit ''I feel nauseous'', advice_output = pg_lit ''Try ginger tea'',
             created_at = 10, updated_at = 10 \<rparr>"

definition chat2 :: chat where
  "chat2 = \<lparr> chats_id = 2, user_id = 2, title = Some (pg_lit ''Sleep''),
             user_input = pg_lit ''Sleep'', advice_output = pg_lit ''Lie on your side'',
             created_at = 20, updated_at = 20 \<rparr>"

definition chat3 :: chat where
  "chat3 = \<lparr> chats_id = 3, user_id = 1, title = None,
             user_input = pg_lit ''Back pain'', advice_output = pg_lit ''Stretch gently'',
             created_at = 30, updated_at = 30 \<rparr>"

definition sample_store :: store where
  "sample_store =
     \<lparr> users = [alice, bob], chats = [chat1, chat2, chat3],
       users_seq = 3, chats_seq = 4, online = True \<rparr>"

definition sample_provider :: provider where
  "sample_provider =
     \<lparr> GEMINI_API_KEY = Some ''key'',
       fetch = (\<lambda>url q. Replied 200 (Some (obj [(''candidates'', JArr [JStr (js ''Rest'')])]))) \<rparr>"

section \<open>Sample requests\<close>

text \<open>Bodies and rows of the concrete instances below.\<close>

definition empty_email_signup :: jsval where
  "empty_email_signup = obj [(''email'', JStr []), (''password'', JStr (js ''pw3''))]"




definition long_title :: string where
  "long_title = replicate 255 CHR ''t''"

definition spaced_title_body :: jsval where
  "spaced_title_body =
     obj [(''email'', JStr (js ''a@x.com'')), (''title'', JStr (js (long_title @ ''  '')))]"

definition chat1_updated :: chat where
  "chat1_updated =
     chat1\<lparr> title := Some (pg_lit ''Rest''), user_input := pg_lit ''Rest more'', updated_at := 50 \<rparr>"

definition rest_body :: jsval where
  "rest_body =
     obj [(''email'', JStr (js ''a@x.com'')), (''title'', JStr (js ''Rest'')),
          (''userInput'', JStr (js ''Rest more''))]"

definition empty_title_create :: jsval where
  "empty_title_create =
     obj [(''email'', JStr (js ''a@x.com'')), (''userInput'', JStr (js ''I feel nauseous'')),
          (''adviceOutput'', JStr (js ''Try ginger tea'')), (''title'', JStr [])]"

definition absent_title_create :: jsval where
  "absent_title_create =
     obj [(''email'', JStr (js ''a@x.com'')), (''userInput'', JStr (js ''I feel nauseous'')),
          (''adviceOutput'', JStr (js ''Try ginger tea''))]"

definition empty_title_update :: jsval where
  "empty_title_update = obj [(''email'', JStr (js ''a@x.com'')), (''title'', JStr [])]"

section \<open>Facts about strings and texts\<close>

lemma of_char_lt: "(of_char c :: nat) < 256"
proof -
  have "of_char c mod (256 :: nat) < 256" by simp
  then show ?thesis by (simp only: of_char_mod_256)
qed

lemma unat_js_char: "unat (js_char c) = of_char c"
proof -
  have "(of_char c :: nat) < 65536" using of_char_lt [of c] by linarith
  then have "(of_char c :: nat) mod 65536 = of_char c" by (rule mod_less)
  then show ?thesis by (simp add: js_char_def unat_of_nat)
qed

lemma js_char_inj: "js_char c = js_char d \<longleftrightarrow> c = d"
proof
  assume "js_char c = js_char d"
  then have "unat (js_char c) = unat (js_char d)" by simp
  then show "c = d" by (simp add: unat_js_char)
qed simp

lemma js_char_not_surrogate: "\<not> is_high (js_char c)" "\<not> is_low (js_char c)"
proof -
  have "\<not> (55296 :: nat) \<le> of_char c" using of_char_lt [of c] by linarith
  moreover have "\<not> (56320 :: nat) \<le> of_char c" using of_char_lt [of c] by linarith
  ultimately show "\<not> is_high (js_char c)" "\<not> is_low (js_char c)"
    by (simp_all add: is_high_def is_low_def word_le_nat_alt unat_js_char)
qed

lemma js_char_zero: "js_char c = 0 \<longleftrightarrow> c = CHR 0x00"
proof -
  have "js_char c = 0 \<longleftrightarrow> unat (js_char c) = 0" by (simp add: unat_eq_0)
  also have "\<dots> \<longleftrightarrow> (of_char c :: nat) = 0" by (simp add: unat_js_char)
  also have "\<dots> \<longleftrightarrow> c = CHR 0x00" by (cases c) simp
  finally show ?thesis .
qed

lemma js_inj: "js s = js t \<longleftrightarrow> s = t"
proof -
  have "inj js_char" by (rule injI) (simp add: js_char_inj)
  then show ?thesis by (simp add: js_def inj_map_eq_map)
qed

lemma js_append: "js (s @ t) = js s @ js t"
  by (simp add: js_def)

lemma js_empty_iff: "js s = [] \<longleftrightarrow> s = []"
  by (simp add: js_def)

lemma length_js: "length (js s) = length s"
  by (simp add: js_def)

lemma NUL_in_js: "0 \<in> set (js s) \<longleftrightarrow> CHR 0x00 \<in> set s"
  by (auto simp: js_def js_char_zero)

lemma replacement_units: "pg_char_units [0xFFFD]"
  by (simp add: pg_char_units_def is_high_def is_low_def)

lemma Rep_pgc: "Rep_pgchar (pgc us) = (if pg_char_units us then us else [0xFFFD])"
  unfolding pgc_def using replacement_units by (simp add: Abs_pgchar_inverse)

lemma Rep_pgchar_units: "pg_char_units (Rep_pgchar c)"
  using Rep_pgchar [of c] by simp

lemma pgc_Rep: "pgc (Rep_pgchar c) = c"
  by (simp add: pgc_def Rep_pgchar_units Rep_pgchar_inverse)

lemma Rep_pgchar_cases:
  obtains u where "Rep_pgchar c = [u]" "u \<noteq> 0" "\<not> is_high u" "\<not> is_low u"
  | h l where "Rep_pgchar c = [h, l]" "is_high h" "is_low l"
  using Rep_pgchar_units [of c]
  by (auto simp: pg_char_units_def split: list.splits)

lemma js_of_Nil: "js_of [] = []"
  by (simp add: js_of_def)

lemma js_of_Cons: "js_of (c # t) = Rep_pgchar c @ js_of t"
  by (simp add: js_of_def)


lemma js_of_empty_iff: "js_of t = [] \<longleftrightarrow> t = []"
proof (cases t)
  case Nil
  then show ?thesis by (simp add: js_of_Nil)
next
  case (Cons c t')
  then show ?thesis by (cases c rule: Rep_pgchar_cases) (simp_all add: js_of_Cons)
qed

lemma surrogate_nonzero: "is_high u \<Longrightarrow> u \<noteq> 0" "is_low u \<Longrightarrow> u \<noteq> 0"
  by (auto simp: is_high_def is_low_def)

lemma js_of_no_NUL: "0 \<notin> set (js_of t)"
proof (induction t)
  case Nil
  then show ?case by (simp add: js_of_Nil)
next
  case (Cons c t)
  then show ?case
    by (cases c rule: Rep_pgchar_cases) (auto simp: js_of_Cons dest: surrogate_nonzero)
qed

text \<open>A text is read back and sent again as it is.\<close>

lemma to_pg_js_of: "to_pg (js_of t) = t"
proof (induction t)
  case Nil
  then show ?case by (simp add: js_of_Nil)
next
  case (Cons c t)
  show ?case
  proof (cases c rule: Rep_pgchar_cases)
    case (1 u)
    from 1(1) have cu: "pgc [u] = c" using pgc_Rep [of c] by simp
    show ?thesis
    proof (cases "js_of t")
      case Nil
      then have "t = []" by (simp add: js_of_empty_iff)
      with 1 cu show ?thesis by (simp add: js_of_Cons js_of_Nil)
    next
      case (Cons v r)
      with 1 cu Cons.IH show ?thesis by (simp add: js_of_Cons)
    qed
  next
    case (2 h l)
    from 2(1) have "pgc [h, l] = c" using pgc_Rep [of c] by simp
    with 2 Cons.IH show ?thesis by (simp add: js_of_Cons)
  qed
qed

text \<open>A string without surrogates: each code unit is a character.\<close>

lemma to_pg_plain:
  "\<forall>u\<in>set s. \<not> is_high u \<Longrightarrow> to_pg s = map (\<lambda>u. pgc [u]) s"
  by (induction s rule: induct_list012) simp_all


lemma js_of_to_pg_plain:
  assumes "\<forall>u\<in>set s. u \<noteq> 0 \<and> \<not> is_high u \<and> \<not> is_low u"
  shows "js_of (to_pg s) = s"
proof -
  from assms have "js_of (map (\<lambda>u. pgc [u]) s) = s"
  proof (induction s)
    case Nil
    then show ?case by (simp add: js_of_Nil)
  next
    case (Cons u s)
    then have "pg_char_units [u]" by (simp add: pg_char_units_def)
    with Cons show ?case by (simp add: js_of_Cons Rep_pgc)
  qed
  with assms show ?thesis by (simp add: to_pg_plain)
qed

lemma length_to_pg_plain: "\<forall>u\<in>set s. \<not> is_high u \<Longrightarrow> length (to_pg s) = length s"
  by (simp add: to_pg_plain)

lemma length_to_pg_le: "length (to_pg s) \<le> length s"
  by (induction s rule: to_pg.induct) auto

lemma js_plain: "\<forall>u\<in>set (js s). \<not> is_high u \<and> \<not> is_low u"
  by (simp add: js_def js_char_not_surrogate)

lemma to_pg_js: "to_pg (js s) = map (\<lambda>c. pgc [js_char c]) s"
proof -
  have "to_pg (js s) = map (\<lambda>u. pgc [u]) (js s)"
    using js_plain [of s] by (intro to_pg_plain) simp
  then show ?thesis by (simp add: js_def comp_def)
qed

lemma length_pg_lit: "length (pg_lit s) = length s"
  by (simp add: pg_lit_def to_pg_js)

lemma js_of_pg_lit: "CHR 0x00 \<notin> set s \<Longrightarrow> js_of (pg_lit s) = js s"
  unfolding pg_lit_def using js_plain [of s]
  by (intro js_of_to_pg_plain) (auto simp: NUL_in_js)

lemma pg_lit_eq:
  assumes "CHR 0x00 \<notin> set s" and "CHR 0x00 \<notin> set t"
  shows "pg_lit s = pg_lit t \<longleftrightarrow> s = t"
proof
  assume "pg_lit s = pg_lit t"
  then have "js_of (pg_lit s) = js_of (pg_lit t)" by simp
  with assms show "s = t" by (simp add: js_of_pg_lit js_inj)
qed simp

lemma pg_lit_empty_iff: "pg_lit s = [] \<longleftrightarrow> s = []"
  using length_pg_lit [of s] by (metis length_0_conv)

text \<open>Binding.\<close>

lemma bind_text_js_of: "bind_text (js_of t) = Inr t"
  by (simp add: bind_text_def js_of_no_NUL to_pg_js_of)

lemma bind_text_js: "CHR 0x00 \<notin> set s \<Longrightarrow> bind_text (js s) = Inr (pg_lit s)"
  by (simp add: bind_text_def NUL_in_js pg_lit_def)

lemma bind_param_JStr: "0 \<notin> set t \<Longrightarrow> bind_param E (JStr t) = Inr (Some (to_pg t))"
  by (simp add: bind_param_def bind_text_def)

lemma bind_param_JStr_NUL: "0 \<in> set t \<Longrightarrow> bind_param E (JStr t) = Inl InvalidByteSequence"
  by (simp add: bind_param_def bind_text_def)

lemma bind_param_js_of: "bind_param E (JStr (js_of t)) = Inr (Some t)"
  by (simp add: bind_param_def bind_text_js_of)

lemma bind_param_lit: "CHR 0x00 \<notin> set s \<Longrightarrow> bind_param E (JStr (js s)) = Inr (Some (pg_lit s))"
  by (simp add: bind_param_def bind_text_js)

lemma bind_param_absent: "bind_param E JUndefined = Inr None" "bind_param E JNull = Inr None"
  by (simp_all add: bind_param_def)

lemma truthy_prepared: "truthy v \<Longrightarrow> prepareValue E v \<noteq> None"
  by (cases v) simp_all

lemma bind_param_Some: "bind_param E v = Inr (Some t) \<Longrightarrow> v \<noteq> JUndefined \<and> v \<noteq> JNull"
  by (cases v) (simp_all add: bind_param_def)

lemma varchar255_short: "length t \<le> 255 \<Longrightarrow> varchar255 t = Inr t"
  by (simp add: varchar255_def)

lemma nullable_varchar255_short: "length t \<le> 255 \<Longrightarrow> nullable_varchar255 (Some t) = Inr (Some t)"
  by (simp add: nullable_varchar255_def varchar255_short)

text \<open>Objects.\<close>

lemma map_of_obj: "map_of (map (\<lambda>(k, v). (js k, v)) kvs) (js k) = map_of kvs k"
  by (induction kvs) (auto simp: js_inj)

lemma get_prop_obj:
  "get_prop (obj kvs) (js k) = Inr (case map_of kvs k of Some v \<Rightarrow> v | None \<Rightarrow> JUndefined)"
  by (simp add: obj_def map_of_obj)

section \<open>Resolving the account\<close>

lemmas sample_defs = sample_env_def sample_store_def alice_def bob_def chat1_def chat2_def chat3_def

lemmas lit_simps = pg_lit_eq js_of_pg_lit length_pg_lit bind_param_lit js_inj get_prop_obj
  pg_lit_empty_iff js_empty_iff

lemma filter_key_unique:
  "distinct (map f xs) \<Longrightarrow> x \<in> set xs \<Longrightarrow> filter (\<lambda>y. f y = f x) xs = [x]"
proof (induction xs)
  case Nil
  then show ?case by simp
next
  case (Cons y ys)
  show ?case
  proof (cases "y = x")
    case True
    with Cons.prems have "f x \<notin> f ` set ys" by simp
    then have "\<forall>z\<in>set ys. f z \<noteq> f x" by (metis imageI)
    then have "filter (\<lambda>y. f y = f x) ys = []" by (simp add: filter_empty_conv)
    with True show ?thesis by simp
  next
    case False
    with Cons.prems have "x \<in> set ys" "f y \<noteq> f x" by auto
    with Cons show ?thesis by simp
  qed
qed

lemma select_registered:
  assumes "online s" "distinct (map email (users s))" "u \<in> set (users s)"
    and "bind_param E em = Inr (Some (email u))"
  shows "select_users_by_email E s em = Inr [u]"
  using assms filter_key_unique [of email "users s" u]
  by (simp add: select_users_by_email_def)

lemma select_unregistered:
  assumes "online s" "bind_param E em = Inr (Some e)" "e \<notin> email ` set (users s)"
  shows "select_users_by_email E s em = Inr []"
  using assms by (auto simp: select_users_by_email_def filter_empty_conv)

lemma select_offline:
  "\<not> online s \<Longrightarrow> select_users_by_email E s em = Inl ConnectionFailure"
  by (simp add: select_users_by_email_def)

lemma select_some_registered:
  assumes "online s" "bind_param E em = Inr (Some e)" "e \<in> email ` set (users s)"
  shows "\<exists>u rest. select_users_by_email E s em = Inr (u # rest) \<and> u \<in> set (users s) \<and> email u = e"
proof -
  let ?xs = "filter (\<lambda>u. Some (email u) = Some e) (users s)"
  from assms(3) have "?xs \<noteq> []" by (auto simp: filter_empty_conv)
  then obtain u rest where ur: "?xs = u # rest" by (cases ?xs) auto
  then have "u \<in> set ?xs" by simp
  then have "u \<in> set (users s)" "email u = e" by auto
  with ur assms(1,2) show ?thesis by (simp add: select_users_by_email_def)
qed

lemma select_head:
  assumes "select_users_by_email E s em = Inr (u # rest)"
  shows "u \<in> set (users s) \<and> bind_param E em = Inr (Some (email u))"
proof -
  from assms obtain p where p: "bind_param E em = Inr p"
    and f: "filter (\<lambda>u. Some (email u) = p) (users s) = u # rest"
    by (auto simp: select_users_by_email_def split: if_splits sum.splits)
  from f have "u \<in> set (filter (\<lambda>u. Some (email u) = p) (users s))" by simp
  with p show ?thesis by auto
qed

section \<open>Scoping by account\<close>

lemma list_chats_rows:
  assumes "distinct (map email (users s))" "a \<in> set (users s)"
    and "bind_param E em = Inr (Some (email a))"
  shows "set (returned_rows (list_chats E s em)) \<subseteq> row_of ` {c \<in> set (chats s). user_id c = users_id a}"
proof (cases "online s \<and> truthy em")
  case True
  then show ?thesis using assms select_registered [of s a E em]
    by (auto simp: list_chats_def catch500_def select_chats_by_user_def)
next
  case False
  then show ?thesis using assms
    by (auto simp: list_chats_def catch500_def select_offline)
qed

lemma select_chat_rows:
  assumes "select_chat E s idp userId = Inr rows"
  shows "set rows \<subseteq> row_of ` {c \<in> set (chats s). user_id c = userId}"
  using assms by (auto simp: select_chat_def owned_def split: if_splits option.splits)

lemma get_chat_rows:
  assumes "distinct (map email (users s))" "a \<in> set (users s)"
    and "bind_param E em = Inr (Some (email a))"
  shows "set (returned_rows (get_chat E s idp em)) \<subseteq> row_of ` {c \<in> set (chats s). user_id c = users_id a}"
proof (cases "online s \<and> truthy em")
  case True
  show ?thesis
  proof (cases "select_chat E s idp (users_id a)")
    case (Inl e)
    with True assms select_registered [of s a E em] show ?thesis
      by (simp add: get_chat_def catch500_def)
  next
    case (Inr rows)
    from select_chat_rows [OF Inr] Inr True assms select_registered [of s a E em] show ?thesis
      by (cases rows) (simp_all add: get_chat_def catch500_def)
  qed
next
  case False
  then show ?thesis using assms
    by (auto simp: get_chat_def catch500_def select_offline)
qed

lemma row_of_id: "row_of c = row_of c' \<Longrightarrow> chats_id c = chats_id c'"
  by (simp add: row_of_def)

lemma foreign_row_not_in:
  assumes wf: "wf_store s" and a: "a \<in> set (users s)" and b: "b \<in> set (users s)" and ab: "a \<noteq> b"
    and c: "c \<in> set (chats s)" and cb: "user_id c = users_id b"
  shows "row_of c \<notin> row_of ` {c \<in> set (chats s). user_id c = users_id a}"
proof
  assume "row_of c \<in> row_of ` {c \<in> set (chats s). user_id c = users_id a}"
  then obtain c' where c': "c' \<in> set (chats s)" "user_id c' = users_id a" "row_of c = row_of c'"
    by auto
  from wf have "inj_on chats_id (set (chats s))" "inj_on users_id (set (users s))"
    by (simp_all add: wf_store_def distinct_map)
  with c c' row_of_id [of c c'] have "c = c'" by (auto dest: inj_onD)
  with c' cb have "users_id a = users_id b" by simp
  with \<open>inj_on users_id (set (users s))\<close> a b ab show False by (auto dest: inj_onD)
qed

text \<open>
  Claim C1. Let \<open>a\<close> and \<open>b\<close> be distinct accounts of a well-formed store, and let the
  email of a request resolve to \<open>a\<close>. Every row that the list handler and the get handler
  return is the row of a chat whose owner is \<open>a\<close>, and the row of a chat owned by \<open>b\<close>
  is never among them, whatever the path's id is.
\<close>

theorem list_get_scoped:
  assumes wf: "wf_store s" and a: "a \<in> set (users s)" and b: "b \<in> set (users s)" and ab: "a \<noteq> b"
    and em: "bind_param E em = Inr (Some (email a))"
  shows "set (returned_rows (list_chats E s em)) \<subseteq> row_of ` {c \<in> set (chats s). user_id c = users_id a}
       \<and> set (returned_rows (get_chat E s idp em)) \<subseteq> row_of ` {c \<in> set (chats s). user_id c = users_id a}
       \<and> (\<forall>c \<in> set (chats s). user_id c = users_id b \<longrightarrow>
            row_of c \<notin> set (returned_rows (list_chats E s em)) \<and>
            row_of c \<notin> set (returned_rows (get_chat E s idp em)))"
proof -
  from wf have d: "distinct (map email (users s))" by (simp add: wf_store_def)
  note l = list_chats_rows [OF d a em] and g = get_chat_rows [OF d a em, of idp]
  from foreign_row_not_in [OF wf a b ab] l g show ?thesis by blast
qed

text \<open>
  The sample store: listing and getting with the email of the first account return its
  chats, and never the chat of the second account, also when the path names that chat.
\<close>

theorem list_get_scoped_witness:
  "wf_store sample_store \<and> alice \<in> set (users sample_store) \<and> bob \<in> set (users sample_store)
   \<and> alice \<noteq> bob \<and> bind_param sample_env (JStr (js ''a@x.com'')) = Inr (Some (email alice))
   \<and> chat2 \<in> set (chats sample_store) \<and> user_id chat2 = users_id bob
   \<and> returned_rows (list_chats sample_env sample_store (JStr (js ''a@x.com''))) = [row_of chat3, row_of chat1]
   \<and> returned_rows (get_chat sample_env sample_store (js ''3'') (JStr (js ''a@x.com''))) = [row_of chat3]
   \<and> returned_rows (get_chat sample_env sample_store (js ''2'') (JStr (js ''a@x.com''))) = []
   \<and> row_of chat2 \<notin> set (returned_rows (list_chats sample_env sample_store (JStr (js ''a@x.com''))))
   \<and> row_of chat2 \<notin> set (returned_rows (get_chat sample_env sample_store (js ''2'') (JStr (js ''a@x.com''))))"
proof -
  have h: "wf_store sample_store" "alice \<in> set (users sample_store)" "bob \<in> set (users sample_store)"
    "alice \<noteq> bob" "bind_param sample_env (JStr (js ''a@x.com'')) = Inr (Some (email alice))"
    by (simp_all add: wf_store_def sample_defs lit_simps)
  have c: "chat2 \<in> set (chats sample_store)" "user_id chat2 = users_id bob"
    by (simp_all add: sample_defs)
  from list_get_scoped [OF h, of "js ''2''"] c
  have "row_of chat2 \<notin> set (returned_rows (list_chats sample_env sample_store (JStr (js ''a@x.com''))))"
    "row_of chat2 \<notin> set (returned_rows (get_chat sample_env sample_store (js ''2'') (JStr (js ''a@x.com''))))"
    by blast+
  moreover have "returned_rows (list_chats sample_env sample_store (JStr (js ''a@x.com''))) = [row_of chat3, row_of chat1]"
    by (simp add: list_chats_def catch500_def select_users_by_email_def select_chats_by_user_def
          sample_defs lit_simps)
  moreover have "returned_rows (get_chat sample_env sample_store (js ''3'') (JStr (js ''a@x.com''))) = [row_of chat3]"
    by (simp add: get_chat_def catch500_def select_users_by_email_def select_chat_def owned_def
          sample_defs lit_simps)
  moreover have "returned_rows (get_chat sample_env sample_store (js ''2'') (JStr (js ''a@x.com''))) = []"
    by (simp add: get_chat_def catch500_def select_users_by_email_def select_chat_def owned_def
          sample_defs lit_simps)
  ultimately show ?thesis using h c by simp
qed

section \<open>Deleting\<close>

text \<open>
  Claim C6. For a chat owned by the account of a supplied email, the delete handler
  answers 200, and the chat is no longer in the store; the same request on the resulting
  store is answered 404 with \<^verbatim>\<open>Chat not found\<close> and changes nothing.
\<close>

theorem delete_twice:
  assumes "online s" and "distinct (map email (users s))" and "a \<in> set (users s)"
    and "email a \<noteq> []" and "c \<in> set (chats s)" and "user_id c = users_id a"
    and "int4in E idp = Some (chats_id c)"
  shows "\<exists>s'. delete_chat E s idp (JStr (js_of (email a))) = (Resp 200 (Message ''Chat deleted successfully''), s')
          \<and> s' = s\<lparr> chats := filter (\<lambda>x. \<not> owned (chats_id c) (users_id a) x) (chats s) \<rparr>
          \<and> c \<notin> set (chats s')
          \<and> delete_chat E s' idp (JStr (js_of (email a))) = (Resp 404 (Error ''Chat not found''), s')"
proof -
  let ?P = "owned (chats_id c) (users_id a)"
  let ?s' = "s\<lparr> chats := filter (\<lambda>x. \<not> ?P x) (chats s) \<rparr>"
  let ?em = "JStr (js_of (email a))"
  from assms(4) have t: "truthy ?em" by (simp add: js_of_empty_iff)
  from assms(5,6) have "c \<in> set (filter ?P (chats s))" by (simp add: owned_def)
  then obtain x xs where xs: "filter ?P (chats s) = x # xs" by (cases "filter ?P (chats s)") auto
  with assms(1,7) have "delete_chats E s idp (users_id a) = (Inr (chats_id x # map chats_id xs), ?s')"
    by (simp add: delete_chats_def)
  with select_registered [OF assms(1,2,3) bind_param_js_of] t
  have first: "delete_chat E s idp ?em = (Resp 200 (Message ''Chat deleted successfully''), ?s')"
    by (simp add: delete_chat_def catch500s_def)
  have gone: "c \<notin> set (chats ?s')" using assms(6) by (simp add: owned_def)
  have "filter ?P (chats ?s') = []" by (simp add: filter_empty_conv)
  moreover have "?s'\<lparr> chats := filter (\<lambda>x. \<not> ?P x) (chats ?s') \<rparr> = ?s'" by simp
  ultimately have "delete_chats E ?s' idp (users_id a) = (Inr [], ?s')"
    using assms(1,7) by (simp add: delete_chats_def)
  moreover have "select_users_by_email E ?s' ?em = Inr [a]"
    using select_registered [of ?s' a E ?em] assms(1,2,3) by (simp add: bind_param_js_of)
  ultimately have "delete_chat E ?s' idp ?em = (Resp 404 (Error ''Chat not found''), ?s')"
    using t by (simp add: delete_chat_def catch500s_def)
  with first gone show ?thesis by blast
qed

text \<open>Deleting the first chat of the sample store twice.\<close>

theorem delete_twice_witness:
  "online sample_store \<and> distinct (map email (users sample_store)) \<and> alice \<in> set (users sample_store)
   \<and> email alice \<noteq> [] \<and> chat1 \<in> set (chats sample_store) \<and> user_id chat1 = users_id alice
   \<and> int4in sample_env (js ''1'') = Some (chats_id chat1)
   \<and> js_of (email alice) = js ''a@x.com''
   \<and> delete_chat sample_env sample_store (js ''1'') (JStr (js ''a@x.com''))
       = (Resp 200 (Message ''Chat deleted successfully''), sample_store\<lparr> chats := [chat2, chat3] \<rparr>)
   \<and> delete_chat sample_env (sample_store\<lparr> chats := [chat2, chat3] \<rparr>) (js ''1'') (JStr (js ''a@x.com''))
       = (Resp 404 (Error ''Chat not found''), sample_store\<lparr> chats := [chat2, chat3] \<rparr>)"
proof -
  have h: "online sample_store" "distinct (map email (users sample_store))" "alice \<in> set (users sample_store)"
    "email alice \<noteq> []" "chat1 \<in> set (chats sample_store)" "user_id chat1 = users_id alice"
    "int4in sample_env (js ''1'') = Some (chats_id chat1)"
    by (simp_all add: sample_defs lit_simps)
  have e: "js_of (email alice) = js ''a@x.com''" by (simp add: alice_def lit_simps)
  have f: "filter (\<lambda>x. \<not> owned (chats_id chat1) (users_id alice) x) (chats sample_store) = [chat2, chat3]"
    by (simp add: owned_def sample_defs)
  from delete_twice [OF h] f h e show ?thesis by simp
qed

section \<open>The advice proxy\<close>

lemma generate_body_read:
  "\<exists>v. get_prop (if truthy reqBody then reqBody else JObj []) k = Inr v"
  by (cases reqBody) simp_all

text \<open>
  Claim C8. With an empty (indeed any falsy) \<^verbatim>\<open>userInput\<close> the advice handler
  answers 400 with \<^verbatim>\<open>userInput is required\<close> and makes no call to the provider. The
  field is read from \<^verbatim>\<open>req.body || {}\<close>, a reading that always yields a value
  (\<open>generate_body_read\<close>), so the statement covers every request.
\<close>

theorem generate_requires_input:
  assumes "get_prop (if truthy reqBody then reqBody else JObj []) (js ''userInput'') = Inr userInput"
    and "\<not> truthy userInput"
  shows "generate G reqBody = (Resp 400 (Error ''userInput is required''), [])"
  using assms by (simp add: generate_def generate_try_def)

text \<open>
  The empty question and the request without a body, with a provider that would answer.
\<close>

theorem generate_requires_input_witness:
  "get_prop (if truthy (obj [(''userInput'', JStr [])]) then obj [(''userInput'', JStr [])] else JObj [])
      (js ''userInput'') = Inr (JStr [])
   \<and> \<not> truthy (JStr [])
   \<and> generate sample_provider (obj [(''userInput'', JStr [])]) = (Resp 400 (Error ''userInput is required''), [])
   \<and> get_prop (if truthy JUndefined then JUndefined else JObj []) (js ''userInput'') = Inr JUndefined
   \<and> \<not> truthy JUndefined
   \<and> generate sample_provider JUndefined = (Resp 400 (Error ''userInput is required''), [])"
proof -
  have h: "get_prop (if truthy (obj [(''userInput'', JStr [])]) then obj [(''userInput'', JStr [])] else JObj [])
      (js ''userInput'') = Inr (JStr [])" "\<not> truthy (JStr [])"
    "get_prop (if truthy JUndefined then JUndefined else JObj []) (js ''userInput'') = Inr JUndefined"
    "\<not> truthy JUndefined"
    by (simp_all add: obj_def js_inj)
  from generate_requires_input [OF h(1,2), of sample_provider]
    generate_requires_input [OF h(3,4), of sample_provider] h
  show ?thesis by simp
qed

lemma Nil_eq_pg_lit: "[] = pg_lit s \<longleftrightarrow> s = []"
  using pg_lit_empty_iff [of s] by auto

section \<open>Signup\<close>

lemma signup_object:
  assumes "get_prop reqBody (js ''email'') = Inr em" and "get_prop reqBody (js ''password'') = Inr pw"
  shows "signup E s reqBody =
           (case signup_try E s em pw of
              (Inr r, s') \<Rightarrow> (r, s')
            | (Inl e, s') \<Rightarrow> (Resp 400 (Error ''User already exists or invalid data''), s'))"
  using assms by (simp add: signup_def)


lemma insert_user_Inl:
  assumes "insert_user E s em pw = (Inl e, s')"
  shows "users s' = users s"
  using assms
  by (auto simp: insert_user_def Let_def split: if_splits sum.splits option.splits)

lemma insert_user_Inr:
  assumes "insert_user E s em pw = (Inr x, s')"
  shows "\<exists>e p. e \<notin> email ` set (users s) \<and> nullable_varchar255 (projr (bind_param E em)) = Inr (Some e)
           \<and> nullable_varchar255 (projr (bind_param E pw)) = Inr (Some p)
           \<and> s' = s\<lparr> users_seq := users_seq s + 1,
                     users := users s @ [\<lparr> users_id = users_seq s, email = e, password = p \<rparr>] \<rparr>"
  using assms
  by (auto simp: insert_user_def Let_def split: if_splits sum.splits option.splits)








section \<open>Login\<close>





section \<open>Listing\<close>

lemma select_chats_by_user_sorted:
  assumes "online s"
  shows "\<exists>rows. select_chats_by_user s userId = Inr rows
          \<and> mset rows = mset (map row_of (filter (\<lambda>c. user_id c = userId) (chats s)))
          \<and> sorted_wrt (\<lambda>x y. r_updated_at x \<ge> r_updated_at y) rows"
proof -
  let ?cs = "filter (\<lambda>c. user_id c = userId) (chats s)"
  let ?k = "\<lambda>c. - int (updated_at c)"
  let ?rows = "map row_of (sort_key ?k ?cs)"
  have "sorted (map ?k (sort_key ?k ?cs))" by simp
  then have "sorted_wrt (\<lambda>x y. ?k x \<le> ?k y) (sort_key ?k ?cs)"
    by (simp only: sorted_wrt_map)
  then have "sorted_wrt (\<lambda>x y. updated_at x \<ge> updated_at y) (sort_key ?k ?cs)"
    by simp
  then have "sorted_wrt (\<lambda>x y. r_updated_at x \<ge> r_updated_at y) ?rows"
    by (simp add: sorted_wrt_map row_of_def)
  moreover have "mset ?rows = mset (map row_of ?cs)" by simp
  ultimately show ?thesis using assms by (simp add: select_chats_by_user_def)
qed

text \<open>
  Claim C7, for a non-empty email. On a reachable store with unique emails, listing with
  the non-empty email of an account answers 200 with the rows of exactly the chats that
  the account owns, in descending order of \<^verbatim>\<open>updated_at\<close>; listing with a non-empty
  email that the database accepts and that no account has is answered 404 with
  \<^verbatim>\<open>User not found\<close>. The empty email is answered 400 with \<^verbatim>\<open>Email is required\<close>,
  whether an account has it or not.
\<close>

theorem list_chats_ordered:
  assumes "online s" and "distinct (map email (users s))"
  shows "(\<forall>a \<in> set (users s). email a \<noteq> [] \<longrightarrow>
            (\<exists>rows. list_chats E s (JStr (js_of (email a))) = Resp 200 (Chats rows)
               \<and> mset rows = mset (map row_of (filter (\<lambda>c. user_id c = users_id a) (chats s)))
               \<and> sorted_wrt (\<lambda>x y. r_updated_at x \<ge> r_updated_at y) rows))
       \<and> (e \<noteq> [] \<and> 0 \<notin> set e \<and> to_pg e \<notin> email ` set (users s) \<longrightarrow>
            list_chats E s (JStr e) = Resp 404 (Error ''User not found''))
       \<and> list_chats E s (JStr []) = Resp 400 (Error ''Email is required'')"
proof (intro conjI ballI impI)
  fix a assume a: "a \<in> set (users s)" "email a \<noteq> []"
  from select_chats_by_user_sorted [OF assms(1), of "users_id a"] obtain rows where
    rows: "select_chats_by_user s (users_id a) = Inr rows"
      "mset rows = mset (map row_of (filter (\<lambda>c. user_id c = users_id a) (chats s)))"
      "sorted_wrt (\<lambda>x y. r_updated_at x \<ge> r_updated_at y) rows" by blast
  from select_registered [OF assms(1,2) a(1) bind_param_js_of, of E] a(2) rows(1)
  have "list_chats E s (JStr (js_of (email a))) = Resp 200 (Chats rows)"
    by (simp add: list_chats_def catch500_def js_of_empty_iff)
  with rows(2,3)
  show "\<exists>rows. list_chats E s (JStr (js_of (email a))) = Resp 200 (Chats rows)
               \<and> mset rows = mset (map row_of (filter (\<lambda>c. user_id c = users_id a) (chats s)))
               \<and> sorted_wrt (\<lambda>x y. r_updated_at x \<ge> r_updated_at y) rows" by blast
next
  assume h: "e \<noteq> [] \<and> 0 \<notin> set e \<and> to_pg e \<notin> email ` set (users s)"
  then have "bind_param E (JStr e) = Inr (Some (to_pg e))" by (simp add: bind_param_JStr)
  from select_unregistered [OF assms(1) this] h
  show "list_chats E s (JStr e) = Resp 404 (Error ''User not found'')"
    by (simp add: list_chats_def catch500_def)
next
  show "list_chats E s (JStr []) = Resp 400 (Error ''Email is required'')"
    by (simp add: list_chats_def catch500_def)
qed

text \<open>
  The signup handler registers the empty email (201); listing with this registered email
  is answered 400, not the chats of the account.
\<close>

theorem list_empty_email_counterexample:
  "fst (signup sample_env sample_store empty_email_signup)
     = Resp 201 (Message ''User registered successfully'')
   \<and> [] \<in> email ` set (users (snd (signup sample_env sample_store empty_email_signup)))
   \<and> list_chats sample_env (snd (signup sample_env sample_store empty_email_signup)) (JStr [])
     = Resp 400 (Error ''Email is required'')"
proof -
  have "signup sample_env sample_store empty_email_signup
      = (Resp 201 (Message ''User registered successfully''),
         sample_store\<lparr> users_seq := 4,
           users := [alice, bob, \<lparr> users_id = 3, email = [], password = pg_lit ''hash:pw3'' \<rparr>] \<rparr>)"
    by (simp add: empty_email_signup_def signup_def signup_try_def insert_user_def
          nullable_varchar255_def varchar255_def bind_param_def bind_text_def NUL_in_js
          js_append [symmetric] pg_lit_def [symmetric] Let_def sample_defs lit_simps Nil_eq_pg_lit)
  then show ?thesis by (simp add: list_chats_def catch500_def)
qed

text \<open>
  The sample store: the chats of the first account, the latest first; an email that no
  account has; the empty email.
\<close>

theorem list_chats_ordered_witness:
  "online sample_store \<and> distinct (map email (users sample_store))
   \<and> alice \<in> set (users sample_store) \<and> email alice \<noteq> [] \<and> js_of (email alice) = js ''a@x.com''
   \<and> list_chats sample_env sample_store (JStr (js ''a@x.com'')) = Resp 200 (Chats [row_of chat3, row_of chat1])
   \<and> js ''nobody@x.com'' \<noteq> [] \<and> 0 \<notin> set (js ''nobody@x.com'')
   \<and> to_pg (js ''nobody@x.com'') \<notin> email ` set (users sample_store)
   \<and> list_chats sample_env sample_store (JStr (js ''nobody@x.com'')) = Resp 404 (Error ''User not found'')
   \<and> list_chats sample_env sample_store (JStr []) = Resp 400 (Error ''Email is required'')"
proof -
  have h: "online sample_store" "distinct (map email (users sample_store))"
    by (simp_all add: sample_defs lit_simps)
  have a: "alice \<in> set (users sample_store)" "email alice \<noteq> []" "js_of (email alice) = js ''a@x.com''"
    "js ''nobody@x.com'' \<noteq> []" "0 \<notin> set (js ''nobody@x.com'')"
    "to_pg (js ''nobody@x.com'') \<notin> email ` set (users sample_store)"
    by (simp_all add: sample_defs lit_simps NUL_in_js pg_lit_def [symmetric])
  note t = list_chats_ordered [OF h, of sample_env "js ''nobody@x.com''"]
  from t a have r2: "list_chats sample_env sample_store (JStr (js ''nobody@x.com'')) = Resp 404 (Error ''User not found'')"
    by blast
  from t have r3: "list_chats sample_env sample_store (JStr []) = Resp 400 (Error ''Email is required'')"
    by blast
  from t a obtain rows where "list_chats sample_env sample_store (JStr (js ''a@x.com'')) = Resp 200 (Chats rows)"
    by (metis)
  then have r1: "list_chats sample_env sample_store (JStr (js ''a@x.com'')) = Resp 200 (Chats [row_of chat3, row_of chat1])"
    by (simp add: list_chats_def catch500_def select_users_by_email_def select_chats_by_user_def
          sample_defs lit_simps)
  from r1 r2 r3 h a show ?thesis by simp
qed

section \<open>Creating\<close>

lemma create_chat_object:
  assumes "get_prop reqBody (js ''email'') = Inr em"
    and "get_prop reqBody (js ''userInput'') = Inr userInput"
    and "get_prop reqBody (js ''adviceOutput'') = Inr adviceOutput"
    and "get_prop reqBody (js ''title'') = Inr ti"
  shows "create_chat E s now reqBody = catch500s (create_chat_fields E s now em userInput adviceOutput ti)"
  using assms by (simp add: create_chat_def)

lemma dots_plain: "\<forall>u\<in>set (js ''...''). u \<noteq> 0 \<and> \<not> is_high u \<and> \<not> is_low u"
  using js_plain [of "''...''"] by (auto simp: NUL_in_js)

lemma create_chat_falsy_title:
  assumes on: "online s"
    and b: "get_prop reqBody (js ''email'') = Inr (JStr e)"
      "get_prop reqBody (js ''userInput'') = Inr (JStr ui)"
      "get_prop reqBody (js ''adviceOutput'') = Inr ao"
      "get_prop reqBody (js ''title'') = Inr ti"
    and e: "e \<noteq> []" "0 \<notin> set e" "to_pg e \<in> email ` set (users s)"
    and ui: "ui \<noteq> []" "0 \<notin> set ui"
    and ao: "truthy ao" "bind_param E ao = Inr (Some a)"
    and ti: "\<not> truthy ti"
  shows "\<exists>c. create_chat E s now reqBody
            = (Resp 201 (Chat (row_of c)), s\<lparr> chats_seq := chats_seq s + 1, chats := chats s @ [c] \<rparr>)
          \<and> title c = Some (to_pg (take 50 ui @ (if length ui > 50 then js ''...'' else [])))
          \<and> user_input c = to_pg ui \<and> advice_output c = a"
proof -
  let ?t = "take 50 ui @ (if length ui > 50 then js ''...'' else [])"
  have be: "bind_param E (JStr e) = Inr (Some (to_pg e))" using e(2) by (rule bind_param_JStr)
  from select_some_registered [OF on be e(3)] obtain u rest where
    sel: "select_users_by_email E s (JStr e) = Inr (u # rest)" and u: "u \<in> set (users s)" by blast
  have ct: "chatTitle ti (JStr ui) = Inr (JStr ?t)"
    using ti by (simp add: chatTitle_def)
  have "set (take 50 ui) \<subseteq> set ui" by (rule set_take_subset)
  with ui(2) dots_plain have "0 \<notin> set ?t" by auto
  then have bt: "bind_param E (JStr ?t) = Inr (Some (to_pg ?t))" by (rule bind_param_JStr)
  have "length ?t \<le> 255" by (simp add: length_js)
  with length_to_pg_le [of ?t] have "length (to_pg ?t) \<le> 255" by linarith
  then have vc: "nullable_varchar255 (Some (to_pg ?t)) = Inr (Some (to_pg ?t))"
    by (rule nullable_varchar255_short)
  have bu: "bind_param E (JStr ui) = Inr (Some (to_pg ui))" using ui(2) by (rule bind_param_JStr)
  let ?c = "\<lparr> chats_id = chats_seq s, user_id = users_id u, title = Some (to_pg ?t),
              user_input = to_pg ui, advice_output = a, created_at = now, updated_at = now \<rparr>"
  have "insert_chat E s now (users_id u) (JStr ?t) (JStr ui) ao
          = (Inr (row_of ?c), s\<lparr> chats_seq := chats_seq s + 1, chats := chats s @ [?c] \<rparr>)"
    using on u bt bu ao(2) vc by (simp add: insert_chat_def Let_def)
  with sel ct e(1) ui(1) ao(1)
  have "create_chat_fields E s now (JStr e) (JStr ui) ao ti
          = (Inr (Resp 201 (Chat (row_of ?c))), s\<lparr> chats_seq := chats_seq s + 1, chats := chats s @ [?c] \<rparr>)"
    by (simp add: create_chat_fields_def)
  with create_chat_object [OF b, of E s now]
  have "create_chat E s now reqBody
          = (Resp 201 (Chat (row_of ?c)), s\<lparr> chats_seq := chats_seq s + 1, chats := chats s @ [?c] \<rparr>)"
    by (simp add: catch500s_def)
  moreover have "title ?c = Some (to_pg ?t)" "user_input ?c = to_pg ui" "advice_output ?c = a"
    by simp_all
  ultimately show ?thesis by blast
qed






section \<open>Updating\<close>

lemma update_chat_object:
  assumes "get_prop reqBody (js ''email'') = Inr em"
    and "get_prop reqBody (js ''userInput'') = Inr userInput"
    and "get_prop reqBody (js ''adviceOutput'') = Inr adviceOutput"
    and "get_prop reqBody (js ''title'') = Inr ti"
  shows "update_chat E s now idp reqBody
           = catch500s (update_chat_fields E s now idp em userInput adviceOutput ti)"
  using assms by (simp add: update_chat_def)

lemma update_where_none:
  "\<forall>x\<in>set cs. \<not> P x \<Longrightarrow> update_where P f cs = Inr (cs, [])"
  by (induction cs) simp_all

lemma update_where_single:
  assumes "distinct cs" and "c \<in> set cs" and "\<forall>x\<in>set cs. P x \<longleftrightarrow> x = c" and "f c = Inr c'"
  shows "update_where P f cs = Inr (map (\<lambda>x. if x = c then c' else x) cs, [c'])"
  using assms(1,2,3)
proof (induction cs)
  case Nil
  then show ?case by simp
next
  case (Cons x xs)
  show ?case
  proof (cases "x = c")
    case True
    with Cons.prems have "\<forall>y\<in>set xs. \<not> P y" "c \<notin> set xs" "P c" by auto
    then have "update_where P f xs = Inr (xs, [])"
      by (simp add: update_where_none)
    moreover from \<open>c \<notin> set xs\<close> have "map (\<lambda>x. if x = c then c' else x) xs = xs"
      by (intro map_idI) auto
    ultimately have "update_where P f xs = Inr (xs, [])" "map (\<lambda>x. if x = c then c' else x) xs = xs"
      by simp_all
    with True \<open>P c\<close> assms(4) show ?thesis by simp
  next
    case False
    with Cons.prems have "c \<in> set xs" "\<not> P x" "distinct xs" "\<forall>y\<in>set xs. P y \<longleftrightarrow> y = c" by auto
    with Cons.IH False show ?thesis by simp
  qed
qed

lemma update_where_defined:
  "update_where P f cs = Inr r \<Longrightarrow> c \<in> set cs \<Longrightarrow> P c \<Longrightarrow> \<exists>c'. f c = Inr c'"
  by (induction cs arbitrary: r) (auto split: if_splits sum.splits)

lemma owned_unique:
  assumes "distinct (map chats_id cs)" and "c \<in> set cs" and "owned i userId c"
  shows "\<forall>x\<in>set cs. owned i userId x \<longleftrightarrow> x = c"
proof
  fix x assume x: "x \<in> set cs"
  from assms(1) have "inj_on chats_id (set cs)" by (simp add: distinct_map)
  with x assms(2,3) show "owned i userId x \<longleftrightarrow> x = c"
    by (auto simp: owned_def dest: inj_onD)
qed

lemma update_where_owned:
  assumes d: "distinct (map chats_id cs)"
    and uw: "update_where (owned i userId) f cs = Inr (tbl, ret)" and ne: "ret \<noteq> []"
  shows "\<exists>c c'. c \<in> set cs \<and> owned i userId c \<and> f c = Inr c'
            \<and> tbl = map (\<lambda>x. if x = c then c' else x) cs \<and> ret = [c']"
proof -
  have "\<exists>c\<in>set cs. owned i userId c"
  proof (rule ccontr)
    assume "\<not> (\<exists>c\<in>set cs. owned i userId c)"
    then have "update_where (owned i userId) f cs = Inr (cs, [])"
      by (intro update_where_none) simp
    with uw ne show False by simp
  qed
  then obtain c where c: "c \<in> set cs" "owned i userId c" by blast
  from update_where_defined [OF uw c] obtain c' where c': "f c = Inr c'" by blast
  from d have "distinct cs" by (simp add: distinct_map)
  from \<open>distinct cs\<close> c(1) owned_unique [OF d c] c'
  have "update_where (owned i userId) f cs = Inr (map (\<lambda>x. if x = c then c' else x) cs, [c'])"
    by (rule update_where_single)
  with uw c c' show ?thesis by auto
qed

lemma assign_text:
  "assign c (UserInput, p) = (case p of None \<Rightarrow> Inl NotNullViolation | Some u \<Rightarrow> Inr (c\<lparr> user_input := u \<rparr>))"
  "assign c (AdviceOutput, p) = (case p of None \<Rightarrow> Inl NotNullViolation | Some a \<Rightarrow> Inr (c\<lparr> advice_output := a \<rparr>))"
  by (cases p; simp)+

lemma updates_pipeline:
  assumes "bind_updates E (build_updates ti ui ao) = Inr ps" and "coerce_updates ps = Inr cs"
    and "set_row now cs c = Inr c'"
  shows "(if ti = JUndefined then Inr (title c)
          else case bind_param E ti of Inl e \<Rightarrow> Inl e | Inr p \<Rightarrow> nullable_varchar255 p)
           = Inr (title c')
       \<and> (if ui = JUndefined then Inr (user_input c)
          else case bind_param E ui of
              Inl e \<Rightarrow> Inl e | Inr None \<Rightarrow> Inl NotNullViolation | Inr (Some t) \<Rightarrow> Inr t)
           = Inr (user_input c')
       \<and> (if ao = JUndefined then Inr (advice_output c)
          else case bind_param E ao of
              Inl e \<Rightarrow> Inl e | Inr None \<Rightarrow> Inl NotNullViolation | Inr (Some t) \<Rightarrow> Inr t)
           = Inr (advice_output c')
       \<and> c' = c\<lparr> title := title c', user_input := user_input c',
                  advice_output := advice_output c', updated_at := now \<rparr>"
proof -
  show ?thesis
  proof (cases "ti = JUndefined")
    case t: True
    show ?thesis
    proof (cases "ui = JUndefined")
      case u: True
      show ?thesis using assms t u
        by (cases "ao = JUndefined"; cases "bind_param E ao")
           (auto simp: build_updates_def set_row_def assign_text
              split: sum.splits option.splits)
    next
      case u: False
      show ?thesis using assms t u
        by (cases "ao = JUndefined"; cases "bind_param E ao"; cases "bind_param E ui")
           (auto simp: build_updates_def set_row_def assign_text
              split: sum.splits option.splits)
    qed
  next
    case t: False
    show ?thesis
    proof (cases "ui = JUndefined")
      case u: True
      show ?thesis using assms t u
        by (cases "ao = JUndefined"; cases "bind_param E ao"; cases "bind_param E ti")
           (auto simp: build_updates_def set_row_def assign_text
              split: sum.splits option.splits)
    next
      case u: False
      show ?thesis using assms t u
        by (cases "ao = JUndefined"; cases "bind_param E ao"; cases "bind_param E ui";
            cases "bind_param E ti")
           (auto simp: build_updates_def set_row_def assign_text
              split: sum.splits option.splits)
    qed
  qed
qed

lemma title_outcome:
  assumes "bind_param E ti = Inr p" and "nullable_varchar255 p = Inr x"
  shows "case prepareValue E ti of
           None \<Rightarrow> x = None
         | Some t \<Rightarrow> 0 \<notin> set t
             \<and> x = Some (if length (to_pg t) \<le> 255 then to_pg t else take 255 (to_pg t))
             \<and> list_all (\<lambda>ch. ch = pgc [0x20]) (drop 255 (to_pg t))"
  using assms
  by (auto simp: bind_param_def bind_text_def nullable_varchar255_def varchar255_def
        split: option.splits if_splits sum.splits)

lemma text_outcome:
  assumes "(case bind_param E v of
              Inl e \<Rightarrow> Inl e | Inr None \<Rightarrow> Inl NotNullViolation | Inr (Some t) \<Rightarrow> Inr t) = Inr x"
  shows "\<exists>t. prepareValue E v = Some t \<and> 0 \<notin> set t \<and> x = to_pg t"
  using assms
  by (auto simp: bind_param_def bind_text_def split: option.splits if_splits sum.splits)

text \<open>
  Claim C3, where the answer depends on the email. Take an update call whose body can be
  destructured and supplies none of \<^verbatim>\<open>title\<close>, \<^verbatim>\<open>userInput\<close>, \<^verbatim>\<open>adviceOutput\<close>.
  With a missing (falsy) email the answer is 400 with \<^verbatim>\<open>Email is required\<close>. On a
  reachable store, with the email of an account it is 400 with \<^verbatim>\<open>No fields to update\<close>,
  and with an email that the database accepts and no account has it is 404 with
  \<^verbatim>\<open>User not found\<close>: the account is looked up before the fields are counted. The store
  is unchanged in all three cases.
\<close>

theorem update_without_fields:
  assumes "get_prop reqBody (js ''email'') = Inr em"
    and "get_prop reqBody (js ''userInput'') = Inr JUndefined"
    and "get_prop reqBody (js ''adviceOutput'') = Inr JUndefined"
    and "get_prop reqBody (js ''title'') = Inr JUndefined"
  shows "(\<not> truthy em \<longrightarrow>
            update_chat E s now idp reqBody = (Resp 400 (Error ''Email is required''), s))
       \<and> (online s \<and> truthy em \<and> (\<exists>u\<in>set (users s). bind_param E em = Inr (Some (email u))) \<longrightarrow>
            update_chat E s now idp reqBody = (Resp 400 (Error ''No fields to update''), s))
       \<and> (online s \<and> truthy em
            \<and> (\<exists>e. bind_param E em = Inr (Some e) \<and> e \<notin> email ` set (users s)) \<longrightarrow>
            update_chat E s now idp reqBody = (Resp 404 (Error ''User not found''), s))"
proof (intro conjI impI)
  note uo = update_chat_object [OF assms, of E s now idp]
  {
    assume "\<not> truthy em"
    with uo show "update_chat E s now idp reqBody = (Resp 400 (Error ''Email is required''), s)"
      by (simp add: update_chat_fields_def catch500s_def)
  }
  {
    assume h: "online s \<and> truthy em \<and> (\<exists>u\<in>set (users s). bind_param E em = Inr (Some (email u)))"
    then obtain u where u: "u \<in> set (users s)" "bind_param E em = Inr (Some (email u))" by blast
    then have "email u \<in> email ` set (users s)" by simp
    from select_some_registered [OF _ u(2) this] h obtain v rest where
      "select_users_by_email E s em = Inr (v # rest)" by blast
    with h uo show "update_chat E s now idp reqBody = (Resp 400 (Error ''No fields to update''), s)"
      by (simp add: update_chat_fields_def catch500s_def build_updates_def)
  }
  {
    assume h: "online s \<and> truthy em
            \<and> (\<exists>e. bind_param E em = Inr (Some e) \<and> e \<notin> email ` set (users s))"
    then obtain e where e: "bind_param E em = Inr (Some e)" "e \<notin> email ` set (users s)" by blast
    from select_unregistered [OF _ e] h uo
    show "update_chat E s now idp reqBody = (Resp 404 (Error ''User not found''), s)"
      by (simp add: update_chat_fields_def catch500s_def)
  }
qed

text \<open>An update without fields for an email that no account has: the answer is 404.\<close>

theorem update_without_fields_counterexample:
  "status (fst (update_chat sample_env sample_store 40 (js ''1'')
                  (obj [(''email'', JStr (js ''nobody@x.com''))]))) = 404"
  by (simp add: update_chat_def update_chat_fields_def catch500s_def select_users_by_email_def
        sample_defs lit_simps)

text \<open>The three cases on the sample store.\<close>

theorem update_without_fields_witness:
  "get_prop (obj []) (js ''email'') = Inr JUndefined \<and> \<not> truthy JUndefined
   \<and> update_chat sample_env sample_store 40 (js ''1'') (obj [])
       = (Resp 400 (Error ''Email is required''), sample_store)
   \<and> online sample_store \<and> truthy (JStr (js ''a@x.com''))
   \<and> alice \<in> set (users sample_store)
   \<and> bind_param sample_env (JStr (js ''a@x.com'')) = Inr (Some (email alice))
   \<and> update_chat sample_env sample_store 40 (js ''1'') (obj [(''email'', JStr (js ''a@x.com''))])
       = (Resp 400 (Error ''No fields to update''), sample_store)
   \<and> truthy (JStr (js ''nobody@x.com''))
   \<and> bind_param sample_env (JStr (js ''nobody@x.com'')) = Inr (Some (pg_lit ''nobody@x.com''))
   \<and> pg_lit ''nobody@x.com'' \<notin> email ` set (users sample_store)
   \<and> update_chat sample_env sample_store 40 (js ''1'') (obj [(''email'', JStr (js ''nobody@x.com''))])
       = (Resp 404 (Error ''User not found''), sample_store)"
proof -
  let ?b0 = "obj []"
  let ?b1 = "obj [(''email'', JStr (js ''a@x.com''))]"
  let ?b2 = "obj [(''email'', JStr (js ''nobody@x.com''))]"
  have g0: "get_prop ?b0 (js ''email'') = Inr JUndefined" "get_prop ?b0 (js ''userInput'') = Inr JUndefined"
    "get_prop ?b0 (js ''adviceOutput'') = Inr JUndefined" "get_prop ?b0 (js ''title'') = Inr JUndefined"
    by (simp_all add: get_prop_obj)
  have g1: "get_prop ?b1 (js ''email'') = Inr (JStr (js ''a@x.com''))" "get_prop ?b1 (js ''userInput'') = Inr JUndefined"
    "get_prop ?b1 (js ''adviceOutput'') = Inr JUndefined" "get_prop ?b1 (js ''title'') = Inr JUndefined"
    by (simp_all add: get_prop_obj)
  have g2: "get_prop ?b2 (js ''email'') = Inr (JStr (js ''nobody@x.com''))" "get_prop ?b2 (js ''userInput'') = Inr JUndefined"
    "get_prop ?b2 (js ''adviceOutput'') = Inr JUndefined" "get_prop ?b2 (js ''title'') = Inr JUndefined"
    by (simp_all add: get_prop_obj)
  have h: "\<not> truthy JUndefined" "online sample_store" "truthy (JStr (js ''a@x.com''))"
    "alice \<in> set (users sample_store)"
    "bind_param sample_env (JStr (js ''a@x.com'')) = Inr (Some (email alice))"
    "truthy (JStr (js ''nobody@x.com''))"
    "bind_param sample_env (JStr (js ''nobody@x.com'')) = Inr (Some (pg_lit ''nobody@x.com''))"
    "pg_lit ''nobody@x.com'' \<notin> email ` set (users sample_store)"
    by (simp_all add: sample_defs lit_simps)
  from update_without_fields [OF g0, of sample_env sample_store 40 "js ''1''"] h
  have r0: "update_chat sample_env sample_store 40 (js ''1'') ?b0
       = (Resp 400 (Error ''Email is required''), sample_store)" by blast
  from update_without_fields [OF g1, of sample_env sample_store 40 "js ''1''"] h
  have r1: "update_chat sample_env sample_store 40 (js ''1'') ?b1
       = (Resp 400 (Error ''No fields to update''), sample_store)" by blast
  from update_without_fields [OF g2, of sample_env sample_store 40 "js ''1''"] h
  have r2: "update_chat sample_env sample_store 40 (js ''1'') ?b2
       = (Resp 404 (Error ''User not found''), sample_store)" by blast
  from r0 r1 r2 h g0(1) show ?thesis by simp
qed

text \<open>
  Claim C5, stated for what the store holds. Take an update call that is answered 200, on
  a store with unique chat ids. Exactly one chat has changed: the chat with the id of the
  path, owned by the account of the email; the returned row is its new row. Its id, its
  owner and \<^verbatim>\<open>created_at\<close> are kept and \<^verbatim>\<open>updated_at\<close> is the time of the statement.
  A field that the body omits keeps its value. A supplied \<^verbatim>\<open>userInput\<close> or
  \<^verbatim>\<open>adviceOutput\<close> is the text that the database holds for the supplied value, which has
  no character zero. A supplied title is \<^verbatim>\<open>NULL\<close> when the value is \<^verbatim>\<open>null\<close>;
  otherwise it is the text that the database holds for the supplied value when that has at
  most 255 characters, and its first 255 characters when it has more, all further
  characters being spaces.
\<close>

theorem update_frame:
  assumes d: "distinct (map chats_id (chats s))"
    and b: "get_prop reqBody (js ''email'') = Inr em"
      "get_prop reqBody (js ''userInput'') = Inr userInput"
      "get_prop reqBody (js ''adviceOutput'') = Inr adviceOutput"
      "get_prop reqBody (js ''title'') = Inr ti"
    and up: "update_chat E s now idp reqBody = (Resp 200 (Chat r), s')"
  shows "\<exists>c c'. c \<in> set (chats s) \<and> int4in E idp = Some (chats_id c)
      \<and> (\<exists>a\<in>set (users s). bind_param E em = Inr (Some (email a)) \<and> user_id c = users_id a)
      \<and> s' = s\<lparr> chats := map (\<lambda>x. if x = c then c' else x) (chats s) \<rparr>
      \<and> r = row_of c'
      \<and> chats_id c' = chats_id c \<and> user_id c' = user_id c \<and> created_at c' = created_at c
      \<and> updated_at c' = now
      \<and> (if ti = JUndefined then title c' = title c
          else case prepareValue E ti of
              None \<Rightarrow> title c' = None
            | Some t \<Rightarrow> 0 \<notin> set t
                \<and> title c' = Some (if length (to_pg t) \<le> 255 then to_pg t else take 255 (to_pg t))
                \<and> list_all (\<lambda>ch. ch = pgc [0x20]) (drop 255 (to_pg t)))
      \<and> (if userInput = JUndefined then user_input c' = user_input c
          else \<exists>t. prepareValue E userInput = Some t \<and> 0 \<notin> set t \<and> user_input c' = to_pg t)
      \<and> (if adviceOutput = JUndefined then advice_output c' = advice_output c
          else \<exists>t. prepareValue E adviceOutput = Some t \<and> 0 \<notin> set t \<and> advice_output c' = to_pg t)"
proof -
  let ?ups = "build_updates ti userInput adviceOutput"
  from up update_chat_object [OF b, of E s now idp]
  have uf: "catch500s (update_chat_fields E s now idp em userInput adviceOutput ti) = (Resp 200 (Chat r), s')"
    by simp
  then have t: "truthy em"
    by (auto simp: update_chat_fields_def catch500s_def split: if_splits)
  from uf t obtain u rest where sel: "select_users_by_email E s em = Inr (u # rest)"
    by (auto simp: update_chat_fields_def catch500s_def split: sum.splits list.splits)
  from select_head [OF this] have u: "u \<in> set (users s)" "bind_param E em = Inr (Some (email u))"
    by simp_all
  from uf t sel obtain others where uc: "update_chats E s now ?ups idp (users_id u) = (Inr (r # others), s')"
    by (auto simp: update_chat_fields_def catch500s_def Let_def
          split: sum.splits list.splits if_splits prod.splits)
  then obtain ps i cs tbl ret where ps: "bind_updates E ?ups = Inr ps" and i: "int4in E idp = Some i"
    and cs: "coerce_updates ps = Inr cs"
    and uw: "update_where (owned i (users_id u)) (set_row now cs) (chats s) = Inr (tbl, ret)"
    and ret: "map row_of ret = r # others" and s': "s' = s\<lparr> chats := tbl \<rparr>"
    by (auto simp: update_chats_def split: if_splits option.splits sum.splits)
  from ret have "ret \<noteq> []" by auto
  from update_where_owned [OF d uw this] obtain c c' where
    c: "c \<in> set (chats s)" "owned i (users_id u) c" "set_row now cs c = Inr c'"
      "tbl = map (\<lambda>x. if x = c then c' else x) (chats s)" "ret = [c']" by blast
  from c(2) i have ci: "int4in E idp = Some (chats_id c)" "user_id c = users_id u"
    by (simp_all add: owned_def)
  from ret c(5) have r: "r = row_of c'" by simp
  note pl = updates_pipeline [OF ps cs c(3)]
  from pl have eq: "c' = c\<lparr> title := title c', user_input := user_input c',
                  advice_output := advice_output c', updated_at := now \<rparr>" by simp
  have k: "chats_id c' = chats_id c" "user_id c' = user_id c" "created_at c' = created_at c"
    "updated_at c' = now"
    by (subst eq, simp)+
  have ft: "if ti = JUndefined then title c' = title c
          else case prepareValue E ti of
              None \<Rightarrow> title c' = None
            | Some t \<Rightarrow> 0 \<notin> set t
                \<and> title c' = Some (if length (to_pg t) \<le> 255 then to_pg t else take 255 (to_pg t))
                \<and> list_all (\<lambda>ch. ch = pgc [0x20]) (drop 255 (to_pg t))"
  proof (cases "ti = JUndefined")
    case True
    with pl show ?thesis by simp
  next
    case False
    with pl obtain p where "bind_param E ti = Inr p" "nullable_varchar255 p = Inr (title c')"
      by (cases "bind_param E ti") auto
    from title_outcome [OF this] False show ?thesis by simp
  qed
  have fu: "if userInput = JUndefined then user_input c' = user_input c
          else \<exists>t. prepareValue E userInput = Some t \<and> 0 \<notin> set t \<and> user_input c' = to_pg t"
    using pl text_outcome [of E userInput "user_input c'"] by (cases "userInput = JUndefined") simp_all
  have fa: "if adviceOutput = JUndefined then advice_output c' = advice_output c
          else \<exists>t. prepareValue E adviceOutput = Some t \<and> 0 \<notin> set t \<and> advice_output c' = to_pg t"
    using pl text_outcome [of E adviceOutput "advice_output c'"] by (cases "adviceOutput = JUndefined") simp_all
  from c(1,4) ci r k ft fu fa s' u show ?thesis by blast
qed

lemma update_chat_applies:
  assumes on: "online s" and de: "distinct (map email (users s))"
    and dc: "distinct (map chats_id (chats s))"
    and a: "a \<in> set (users s)" "email a \<noteq> []"
    and c: "c \<in> set (chats s)" "user_id c = users_id a" "int4in E idp = Some (chats_id c)"
    and b: "get_prop reqBody (js ''email'') = Inr (JStr (js_of (email a)))"
      "get_prop reqBody (js ''userInput'') = Inr ui"
      "get_prop reqBody (js ''adviceOutput'') = Inr ao"
      "get_prop reqBody (js ''title'') = Inr ti"
    and ne: "build_updates ti ui ao \<noteq> []"
    and ps: "bind_updates E (build_updates ti ui ao) = Inr ps"
    and cs: "coerce_updates ps = Inr cs"
    and sr: "set_row now cs c = Inr c'"
  shows "update_chat E s now idp reqBody
           = (Resp 200 (Chat (row_of c')), s\<lparr> chats := map (\<lambda>x. if x = c then c' else x) (chats s) \<rparr>)"
proof -
  from c have ow: "owned (chats_id c) (users_id a) c" by (simp add: owned_def)
  from dc have "distinct (chats s)" by (simp add: distinct_map)
  from this c(1) owned_unique [OF dc c(1) ow] sr
  have "update_where (owned (chats_id c) (users_id a)) (set_row now cs) (chats s)
          = Inr (map (\<lambda>x. if x = c then c' else x) (chats s), [c'])"
    by (rule update_where_single)
  with on c(3) ps cs
  have "update_chats E s now (build_updates ti ui ao) idp (users_id a)
          = (Inr [row_of c'], s\<lparr> chats := map (\<lambda>x. if x = c then c' else x) (chats s) \<rparr>)"
    by (simp add: update_chats_def)
  with select_registered [OF on de a(1) bind_param_js_of, of E] a(2) ne
  have "update_chat_fields E s now idp (JStr (js_of (email a))) ui ao ti
          = (Inr (Resp 200 (Chat (row_of c'))), s\<lparr> chats := map (\<lambda>x. if x = c then c' else x) (chats s) \<rparr>)"
    by (simp add: update_chat_fields_def js_of_empty_iff)
  with update_chat_object [OF b, of E s now idp] show ?thesis by (simp add: catch500s_def)
qed

lemma pg_lit_append: "pg_lit (s @ t) = pg_lit s @ pg_lit t"
  by (simp add: pg_lit_def to_pg_js)

lemma pg_lit_spaces: "pg_lit (replicate n CHR '' '') = replicate n (pgc [0x20])"
proof -
  have "js_char CHR '' '' = 0x20" by (simp add: js_char_def)
  then show ?thesis by (simp add: pg_lit_def to_pg_js)
qed

lemma varchar255_cuts_spaces:
  assumes "length s = 255" and "0 < n"
  shows "varchar255 (pg_lit (s @ replicate n CHR '' '')) = Inr (pg_lit s)"
  using assms
  by (simp add: varchar255_def pg_lit_append pg_lit_spaces length_pg_lit list_all_length)

lemma long_title_facts:
  "length long_title = 255" "CHR 0x00 \<notin> set long_title" "CHR 0x00 \<notin> set (long_title @ ''  '')"
  by (simp_all add: long_title_def)

text \<open>
  A title of 255 letters followed by two spaces: the update is answered 200, and the
  stored title is the 255 letters, not the supplied value.
\<close>

theorem update_title_cut_counterexample:
  "fst (update_chat sample_env sample_store 50 (js ''1'') spaced_title_body)
     = Resp 200 (Chat (row_of (chat1\<lparr> title := Some (pg_lit long_title), updated_at := 50 \<rparr>)))
   \<and> get_prop spaced_title_body (js ''title'') = Inr (JStr (js (long_title @ ''  '')))
   \<and> js_of (pg_lit long_title) = js long_title
   \<and> js long_title \<noteq> js (long_title @ ''  '')"
proof -
  have g: "get_prop spaced_title_body (js ''email'') = Inr (JStr (js_of (email alice)))"
    "get_prop spaced_title_body (js ''userInput'') = Inr JUndefined"
    "get_prop spaced_title_body (js ''adviceOutput'') = Inr JUndefined"
    "get_prop spaced_title_body (js ''title'') = Inr (JStr (js (long_title @ ''  '')))"
    by (simp_all add: spaced_title_body_def get_prop_obj alice_def lit_simps)
  have h: "online sample_store" "distinct (map email (users sample_store))"
    "distinct (map chats_id (chats sample_store))" "alice \<in> set (users sample_store)"
    "email alice \<noteq> []" "chat1 \<in> set (chats sample_store)" "user_id chat1 = users_id alice"
    "int4in sample_env (js ''1'') = Some (chats_id chat1)"
    by (simp_all add: sample_defs lit_simps)
  let ?ups = "build_updates (JStr (js (long_title @ ''  ''))) JUndefined JUndefined"
  have ne: "?ups \<noteq> []" by (simp add: build_updates_def)
  have ps: "bind_updates sample_env ?ups = Inr [(Title, Some (pg_lit (long_title @ ''  '')))]"
    using long_title_facts(3) by (simp add: build_updates_def bind_param_lit)
  have sp: "''  '' = replicate 2 CHR '' ''" by (simp add: numeral_2_eq_2)
  have "varchar255 (pg_lit (long_title @ ''  '')) = Inr (pg_lit long_title)"
    unfolding sp using long_title_facts(1) by (intro varchar255_cuts_spaces) simp_all
  then have cs: "coerce_updates [(Title, Some (pg_lit (long_title @ ''  '')))]
      = Inr [(Title, Some (pg_lit long_title))]"
    by (simp add: nullable_varchar255_def)
  have sr: "set_row 50 [(Title, Some (pg_lit long_title))] chat1
      = Inr (chat1\<lparr> title := Some (pg_lit long_title), updated_at := 50 \<rparr>)"
    by (simp add: set_row_def)
  from update_chat_applies [OF h g ne ps cs sr]
  have "fst (update_chat sample_env sample_store 50 (js ''1'') spaced_title_body)
     = Resp 200 (Chat (row_of (chat1\<lparr> title := Some (pg_lit long_title), updated_at := 50 \<rparr>)))"
    by simp
  moreover have "js_of (pg_lit long_title) = js long_title"
    using long_title_facts(2) by (rule js_of_pg_lit)
  moreover have "js long_title \<noteq> js (long_title @ ''  '')" by (simp add: js_inj)
  ultimately show ?thesis using g(4) by simp
qed

text \<open>
  An update of the first chat of the sample store that supplies a title and an input: both
  are stored as supplied, the advice is kept, and no other chat changes.
\<close>

theorem update_frame_witness:
  "distinct (map chats_id (chats sample_store))
   \<and> get_prop rest_body (js ''email'') = Inr (JStr (js ''a@x.com''))
   \<and> get_prop rest_body (js ''userInput'') = Inr (JStr (js ''Rest more''))
   \<and> get_prop rest_body (js ''adviceOutput'') = Inr JUndefined
   \<and> get_prop rest_body (js ''title'') = Inr (JStr (js ''Rest''))
   \<and> update_chat sample_env sample_store 50 (js ''1'') rest_body
       = (Resp 200 (Chat (row_of chat1_updated)), sample_store\<lparr> chats := [chat1_updated, chat2, chat3] \<rparr>)
   \<and> (\<exists>c c'. c \<in> set (chats sample_store) \<and> int4in sample_env (js ''1'') = Some (chats_id c)
        \<and> row_of chat1_updated = row_of c'
        \<and> chats_id c' = chats_id c \<and> user_id c' = user_id c \<and> created_at c' = created_at c
        \<and> updated_at c' = 50 \<and> advice_output c' = advice_output c)
   \<and> title chat1_updated = Some (pg_lit ''Rest'') \<and> js_of (pg_lit ''Rest'') = js ''Rest''
   \<and> user_input chat1_updated = pg_lit ''Rest more'' \<and> js_of (pg_lit ''Rest more'') = js ''Rest more''"
proof -
  have h1: "distinct (map chats_id (chats sample_store))" by (simp add: sample_defs)
  have g: "get_prop rest_body (js ''email'') = Inr (JStr (js ''a@x.com''))"
    "get_prop rest_body (js ''userInput'') = Inr (JStr (js ''Rest more''))"
    "get_prop rest_body (js ''adviceOutput'') = Inr JUndefined"
    "get_prop rest_body (js ''title'') = Inr (JStr (js ''Rest''))"
    by (simp_all add: rest_body_def get_prop_obj)
  have h2: "update_chat sample_env sample_store 50 (js ''1'') rest_body
       = (Resp 200 (Chat (row_of chat1_updated)), sample_store\<lparr> chats := [chat1_updated, chat2, chat3] \<rparr>)"
    by (simp add: update_chat_def update_chat_fields_def rest_body_def catch500s_def
          select_users_by_email_def build_updates_def update_chats_def owned_def set_row_def
          nullable_varchar255_def varchar255_def chat1_updated_def sample_defs lit_simps)
  from update_frame [OF h1 g h2] obtain c c' where
    cc: "c \<in> set (chats sample_store)" "int4in sample_env (js ''1'') = Some (chats_id c)"
    "row_of chat1_updated = row_of c'"
    "chats_id c' = chats_id c" "user_id c' = user_id c" "created_at c' = created_at c"
    "updated_at c' = 50"
    "if JUndefined = JUndefined then advice_output c' = advice_output c
     else \<exists>t. prepareValue sample_env JUndefined = Some t \<and> 0 \<notin> set t \<and> advice_output c' = to_pg t"
    by blast
  from cc(8) have "advice_output c' = advice_output c" by simp
  with cc have "\<exists>c c'. c \<in> set (chats sample_store) \<and> int4in sample_env (js ''1'') = Some (chats_id c)
        \<and> row_of chat1_updated = row_of c'
        \<and> chats_id c' = chats_id c \<and> user_id c' = user_id c \<and> created_at c' = created_at c
        \<and> updated_at c' = 50 \<and> advice_output c' = advice_output c"
    by blast
  moreover have "title chat1_updated = Some (pg_lit ''Rest'')" "js_of (pg_lit ''Rest'') = js ''Rest''"
    "user_input chat1_updated = pg_lit ''Rest more''" "js_of (pg_lit ''Rest more'') = js ''Rest more''"
    by (simp_all add: chat1_updated_def lit_simps)
  ultimately show ?thesis using h1 g h2 by simp
qed

section \<open>The title: truthiness on creation, presence on update\<close>

lemma create_chat_title_ignored:
  assumes "get_prop b (js ''email'') = Inr em" and "get_prop b (js ''userInput'') = Inr ui"
    and "get_prop b (js ''adviceOutput'') = Inr ao" and "get_prop b (js ''title'') = Inr ti"
    and "get_prop b' (js ''email'') = Inr em" and "get_prop b' (js ''userInput'') = Inr ui"
    and "get_prop b' (js ''adviceOutput'') = Inr ao" and "get_prop b' (js ''title'') = Inr ti'"
    and "\<not> truthy ti" and "\<not> truthy ti'"
  shows "create_chat E s now b = create_chat E s now b'"
proof -
  from assms(9,10) have eq: "chatTitle ti ui = chatTitle ti' ui" by (simp add: chatTitle_def)
  have "create_chat_fields E s now em ui ao ti = create_chat_fields E s now em ui ao ti'"
    unfolding create_chat_fields_def eq by (rule refl)
  with create_chat_object [OF assms(1-4), of E s now] create_chat_object [OF assms(5-8), of E s now]
  show ?thesis by simp
qed

text \<open>
  Claim C9. Take a create call that reaches the insertion, as in claim C4, whose title is
  falsy (the empty string, for one). It is answered 201, the stored title is the default
  derived from \<^verbatim>\<open>userInput\<close>, and the call has the result of every call with the same
  fields and no title: the supplied title is ignored. An update call with the empty string
  as its only field, for a chat of the account, is answered 200, and the stored title is
  the empty string.
\<close>

theorem title_truthiness_and_presence:
  assumes "online s" and "distinct (map email (users s))" and "distinct (map chats_id (chats s))"
    and "a \<in> set (users s)" and "email a \<noteq> []"
    and "get_prop createBody (js ''email'') = Inr (JStr (js_of (email a)))"
    and "get_prop createBody (js ''userInput'') = Inr (JStr ui)"
    and "get_prop createBody (js ''adviceOutput'') = Inr ao"
    and "get_prop createBody (js ''title'') = Inr ti"
    and "ui \<noteq> []" and "0 \<notin> set ui" and "truthy ao" and "bind_param E ao = Inr (Some x)"
    and "\<not> truthy ti"
    and "c \<in> set (chats s)" and "user_id c = users_id a" and "int4in E idp = Some (chats_id c)"
    and "get_prop updateBody (js ''email'') = Inr (JStr (js_of (email a)))"
    and "get_prop updateBody (js ''userInput'') = Inr JUndefined"
    and "get_prop updateBody (js ''adviceOutput'') = Inr JUndefined"
    and "get_prop updateBody (js ''title'') = Inr (JStr [])"
  shows "(\<exists>n. create_chat E s now createBody
            = (Resp 201 (Chat (row_of n)), s\<lparr> chats_seq := chats_seq s + 1, chats := chats s @ [n] \<rparr>)
          \<and> title n = Some (to_pg (take 50 ui @ (if length ui > 50 then js ''...'' else []))))
       \<and> (\<forall>b. get_prop b (js ''email'') = Inr (JStr (js_of (email a)))
              \<and> get_prop b (js ''userInput'') = Inr (JStr ui)
              \<and> get_prop b (js ''adviceOutput'') = Inr ao
              \<and> get_prop b (js ''title'') = Inr JUndefined \<longrightarrow>
              create_chat E s now b = create_chat E s now createBody)
       \<and> update_chat E s now idp updateBody
            = (Resp 200 (Chat (row_of (c\<lparr> title := Some [], updated_at := now \<rparr>))),
               s\<lparr> chats := map (\<lambda>x. if x = c then c\<lparr> title := Some [], updated_at := now \<rparr> else x)
                              (chats s) \<rparr>)"
proof (intro conjI allI impI)
  have e: "js_of (email a) \<noteq> []" "0 \<notin> set (js_of (email a))"
    "to_pg (js_of (email a)) \<in> email ` set (users s)"
    using assms(4,5) by (simp_all add: js_of_empty_iff js_of_no_NUL to_pg_js_of)
  from create_chat_falsy_title [OF assms(1,6,7,8,9) e assms(10,11,12,13,14), of now]
  show "\<exists>n. create_chat E s now createBody
            = (Resp 201 (Chat (row_of n)), s\<lparr> chats_seq := chats_seq s + 1, chats := chats s @ [n] \<rparr>)
          \<and> title n = Some (to_pg (take 50 ui @ (if length ui > 50 then js ''...'' else [])))"
    by blast
next
  fix b assume h: "get_prop b (js ''email'') = Inr (JStr (js_of (email a)))
              \<and> get_prop b (js ''userInput'') = Inr (JStr ui)
              \<and> get_prop b (js ''adviceOutput'') = Inr ao
              \<and> get_prop b (js ''title'') = Inr JUndefined"
  have nt: "\<not> truthy JUndefined" by simp
  from h have g: "get_prop b (js ''email'') = Inr (JStr (js_of (email a)))"
    "get_prop b (js ''userInput'') = Inr (JStr ui)"
    "get_prop b (js ''adviceOutput'') = Inr ao"
    "get_prop b (js ''title'') = Inr JUndefined" by simp_all
  show "create_chat E s now b = create_chat E s now createBody"
    by (rule create_chat_title_ignored [OF g assms(6-9) nt assms(14)])
next
  have ne: "build_updates (JStr []) JUndefined JUndefined \<noteq> []"
    by (simp add: build_updates_def)
  have ps: "bind_updates E (build_updates (JStr []) JUndefined JUndefined) = Inr [(Title, Some [])]"
    by (simp add: build_updates_def bind_param_def bind_text_def)
  have cs: "coerce_updates [(Title, Some [])] = Inr [(Title, Some [])]"
    by (simp add: nullable_varchar255_def varchar255_def)
  have sr: "set_row now [(Title, Some [])] c = Inr (c\<lparr> title := Some [], updated_at := now \<rparr>)"
    by (simp add: set_row_def)
  from update_chat_applies [OF assms(1,2,3,4,5,15,16,17,18,19,20,21) ne ps cs sr]
  show "update_chat E s now idp updateBody
            = (Resp 200 (Chat (row_of (c\<lparr> title := Some [], updated_at := now \<rparr>))),
               s\<lparr> chats := map (\<lambda>x. if x = c then c\<lparr> title := Some [], updated_at := now \<rparr> else x)
                              (chats s) \<rparr>)" .
qed

text \<open>
  On the sample store: creating with an empty title gives the title of the input, as
  creating without a title does; updating with an empty title stores it.
\<close>

theorem title_truthiness_and_presence_witness:
  "online sample_store \<and> distinct (map email (users sample_store))
   \<and> distinct (map chats_id (chats sample_store)) \<and> alice \<in> set (users sample_store)
   \<and> email alice \<noteq> []
   \<and> get_prop empty_title_create (js ''title'') = Inr (JStr []) \<and> \<not> truthy (JStr [])
   \<and> js ''I feel nauseous'' \<noteq> [] \<and> 0 \<notin> set (js ''I feel nauseous'')
   \<and> truthy (JStr (js ''Try ginger tea''))
   \<and> bind_param sample_env (JStr (js ''Try ginger tea'')) = Inr (Some (pg_lit ''Try ginger tea''))
   \<and> chat1 \<in> set (chats sample_store) \<and> user_id chat1 = users_id alice
   \<and> int4in sample_env (js ''1'') = Some (chats_id chat1)
   \<and> get_prop empty_title_update (js ''title'') = Inr (JStr [])
   \<and> (\<exists>n. fst (create_chat sample_env sample_store 40 empty_title_create) = Resp 201 (Chat (row_of n))
          \<and> title n = Some (pg_lit ''I feel nauseous''))
   \<and> get_prop absent_title_create (js ''title'') = Inr JUndefined
   \<and> create_chat sample_env sample_store 40 absent_title_create
       = create_chat sample_env sample_store 40 empty_title_create
   \<and> fst (update_chat sample_env sample_store 40 (js ''1'') empty_title_update)
       = Resp 200 (Chat (row_of (chat1\<lparr> title := Some [], updated_at := 40 \<rparr>)))"
proof -
  have e: "js_of (email alice) = js ''a@x.com''" by (simp add: alice_def lit_simps)
  have h: "online sample_store" "distinct (map email (users sample_store))"
    "distinct (map chats_id (chats sample_store))" "alice \<in> set (users sample_store)"
    "email alice \<noteq> []"
    by (simp_all add: sample_defs lit_simps)
  have gc: "get_prop empty_title_create (js ''email'') = Inr (JStr (js_of (email alice)))"
    "get_prop empty_title_create (js ''userInput'') = Inr (JStr (js ''I feel nauseous''))"
    "get_prop empty_title_create (js ''adviceOutput'') = Inr (JStr (js ''Try ginger tea''))"
    "get_prop empty_title_create (js ''title'') = Inr (JStr [])"
    by (simp_all add: empty_title_create_def get_prop_obj e)
  have k: "js ''I feel nauseous'' \<noteq> []" "0 \<notin> set (js ''I feel nauseous'')"
    "truthy (JStr (js ''Try ginger tea''))"
    "bind_param sample_env (JStr (js ''Try ginger tea'')) = Inr (Some (pg_lit ''Try ginger tea''))"
    "\<not> truthy (JStr [])"
    by (simp_all add: lit_simps NUL_in_js)
  have c: "chat1 \<in> set (chats sample_store)" "user_id chat1 = users_id alice"
    "int4in sample_env (js ''1'') = Some (chats_id chat1)"
    by (simp_all add: sample_defs lit_simps)
  have gu: "get_prop empty_title_update (js ''email'') = Inr (JStr (js_of (email alice)))"
    "get_prop empty_title_update (js ''userInput'') = Inr JUndefined"
    "get_prop empty_title_update (js ''adviceOutput'') = Inr JUndefined"
    "get_prop empty_title_update (js ''title'') = Inr (JStr [])"
    by (simp_all add: empty_title_update_def get_prop_obj e)
  have short: "take 50 (js ''I feel nauseous'') @ (if length (js ''I feel nauseous'') > 50 then js ''...'' else [])
      = js ''I feel nauseous''" by (simp add: length_js)
  note t = title_truthiness_and_presence [OF h gc k c gu, of 40]
  from t obtain n where
    n: "create_chat sample_env sample_store 40 empty_title_create
            = (Resp 201 (Chat (row_of n)),
               sample_store\<lparr> chats_seq := chats_seq sample_store + 1, chats := chats sample_store @ [n] \<rparr>)"
    "title n = Some (to_pg (take 50 (js ''I feel nauseous'') @ (if length (js ''I feel nauseous'') > 50 then js ''...'' else [])))"
    by blast
  from n(2) have "title n = Some (pg_lit ''I feel nauseous'')"
    unfolding short by (simp add: pg_lit_def)
  with n(1) have r1: "\<exists>n. fst (create_chat sample_env sample_store 40 empty_title_create) = Resp 201 (Chat (row_of n))
          \<and> title n = Some (pg_lit ''I feel nauseous'')" by auto
  have ga: "get_prop absent_title_create (js ''email'') = Inr (JStr (js_of (email alice)))"
    "get_prop absent_title_create (js ''userInput'') = Inr (JStr (js ''I feel nauseous''))"
    "get_prop absent_title_create (js ''adviceOutput'') = Inr (JStr (js ''Try ginger tea''))"
    "get_prop absent_title_create (js ''title'') = Inr JUndefined"
    by (simp_all add: absent_title_create_def get_prop_obj e)
  from t ga have r3: "create_chat sample_env sample_store 40 absent_title_create
       = create_chat sample_env sample_store 40 empty_title_create" by blast
  from t have r2: "fst (update_chat sample_env sample_store 40 (js ''1'') empty_title_update)
       = Resp 200 (Chat (row_of (chat1\<lparr> title := Some [], updated_at := 40 \<rparr>)))" by simp
  from r1 r2 r3 h gc(4) k c gu(4) ga(4) show ?thesis by simp
qed

section \<open>Reachable stores\<close>

lemma wf_store_initial:
  "wf_store \<lparr> users = [], chats = [], users_seq = 1, chats_seq = 1, online = b \<rparr>"
  by (simp add: wf_store_def)

lemma wf_store_users_seq:
  "wf_store s \<Longrightarrow> wf_store (s\<lparr> users_seq := users_seq s + 1 \<rparr>)"
  by (fastforce simp: wf_store_def)

lemma wf_store_chats_seq:
  "wf_store s \<Longrightarrow> wf_store (s\<lparr> chats_seq := chats_seq s + 1 \<rparr>)"
  by (fastforce simp: wf_store_def)

lemma insert_user_wf:
  assumes "insert_user E s em pw = (r, s')" and "wf_store s"
  shows "wf_store s'"
proof (cases r)
  case (Inl e)
  with assms(1) have "users s' = users s"
    by (auto dest: insert_user_Inl)
  moreover from assms(1) have "s' = s \<or> s' = s\<lparr> users_seq := users_seq s + 1 \<rparr>"
    using Inl by (auto simp: insert_user_def Let_def split: if_splits sum.splits option.splits)
  ultimately show ?thesis using assms(2) wf_store_users_seq [of s] by auto
next
  case (Inr x)
  with assms(1) insert_user_Inr [of E s em pw x s'] obtain e p where
    fresh: "e \<notin> email ` set (users s)"
    and s': "s' = s\<lparr> users_seq := users_seq s + 1,
                     users := users s @ [\<lparr> users_id = users_seq s, email = e, password = p \<rparr>] \<rparr>"
    by blast
  from assms(2) fresh show ?thesis unfolding s' by (fastforce simp: wf_store_def)
qed

lemma signup_wf:
  assumes "wf_store s"
  shows "wf_store (snd (signup E s reqBody))"
  using assms
  by (auto simp: signup_def signup_try_def split: sum.splits prod.splits dest: insert_user_wf)

lemma insert_chat_wf:
  assumes "insert_chat E s now userId ti ui ao = (r, s')" and "wf_store s"
  shows "wf_store s'"
proof -
  have a: "wf_store (s\<lparr> chats_seq := chats_seq s + 1 \<rparr>)"
    using assms(2) by (rule wf_store_chats_seq)
  have b: "wf_store (s\<lparr> chats_seq := chats_seq s + 1, chats := chats s @ [c] \<rparr>)"
    if "chats_id c = chats_seq s" "user_id c \<in> users_id ` set (users s)" for c
    using assms(2) that by (fastforce simp: wf_store_def)
  have c: "wf_store (s\<lparr> chats_seq := chats_seq s + 1,
      chats := chats s @ [\<lparr> chats_id = chats_seq s, user_id = userId, title = t,
                        user_input = u, advice_output = x, created_at = now, updated_at = now \<rparr>] \<rparr>)"
    if "userId \<in> users_id ` set (users s)" for t u x
    using that by (intro b) simp_all
  from assms(1) show ?thesis
    using assms(2) a c
    by (simp add: insert_chat_def Let_def split: if_splits sum.splits option.splits) blast+
qed

lemma create_chat_wf:
  assumes "wf_store s"
  shows "wf_store (snd (create_chat E s now reqBody))"
  using assms
  by (auto simp: create_chat_def create_chat_fields_def catch500s_def Let_def
        split: sum.splits list.splits prod.splits dest: insert_chat_wf)

lemma assign_all_keys:
  "assign_all c ups = Inr c' \<Longrightarrow> chats_id c' = chats_id c \<and> user_id c' = user_id c"
proof (induction ups arbitrary: c)
  case Nil
  then show ?case by simp
next
  case (Cons a ups)
  then obtain c1 where c1: "assign c a = Inr c1" "assign_all c1 ups = Inr c'"
    by (auto split: sum.splits)
  from c1(1) have "chats_id c1 = chats_id c \<and> user_id c1 = user_id c"
    by (cases "(c, a)" rule: assign.cases) (auto split: sum.splits)
  with Cons.IH [OF c1(2)] show ?case by simp
qed

lemma set_row_keys:
  "set_row now ups c = Inr c' \<Longrightarrow> chats_id c' = chats_id c \<and> user_id c' = user_id c"
  by (auto simp: set_row_def split: sum.splits dest: assign_all_keys)

lemma update_where_keys:
  assumes "update_where P f cs = Inr (tbl, ret)"
    and "\<And>c c'. f c = Inr c' \<Longrightarrow> chats_id c' = chats_id c \<and> user_id c' = user_id c"
  shows "map chats_id tbl = map chats_id cs \<and> map user_id tbl = map user_id cs"
  using assms(1)
proof (induction cs arbitrary: tbl ret)
  case Nil
  then show ?case by simp
next
  case (Cons c cs)
  then show ?case
    by (auto split: if_splits sum.splits dest: assms(2))
qed

lemma wf_store_chats:
  assumes "wf_store s" and "map chats_id tbl = map chats_id (chats s)"
    and "map user_id tbl = map user_id (chats s)"
  shows "wf_store (s\<lparr> chats := tbl \<rparr>)"
proof -
  have "\<forall>c\<in>set tbl. chats_id c < chats_seq s \<and> user_id c \<in> users_id ` set (users s)"
  proof
    fix c assume "c \<in> set tbl"
    then obtain n where n: "n < length tbl" "tbl ! n = c" by (auto simp: in_set_conv_nth)
    from assms(2) have len: "length tbl = length (chats s)" by (rule map_eq_imp_length_eq)
    from n len assms(2,3) have "chats_id c = chats_id (chats s ! n)" "user_id c = user_id (chats s ! n)"
      by (metis nth_map)+
    moreover from n len have "chats s ! n \<in> set (chats s)" by simp
    ultimately show "chats_id c < chats_seq s \<and> user_id c \<in> users_id ` set (users s)"
      using assms(1) by (simp add: wf_store_def)
  qed
  with assms show ?thesis by (simp add: wf_store_def)
qed

lemma update_chats_wf:
  assumes "update_chats E s now ups idp userId = (r, s')" and "wf_store s"
  shows "wf_store s'"
proof (cases "s' = s")
  case True
  with assms(2) show ?thesis by simp
next
  case False
  with assms(1) obtain i cs tbl ret where
    uw: "update_where (owned i userId) (set_row now cs) (chats s) = Inr (tbl, ret)"
    and s': "s' = s\<lparr> chats := tbl \<rparr>"
    by (auto simp: update_chats_def split: if_splits option.splits sum.splits)
  from update_where_keys [OF uw set_row_keys]
  have "map chats_id tbl = map chats_id (chats s)" "map user_id tbl = map user_id (chats s)"
    by simp_all
  from wf_store_chats [OF assms(2) this] s' show ?thesis by simp
qed

lemma update_chat_wf:
  assumes "wf_store s"
  shows "wf_store (snd (update_chat E s now idp reqBody))"
  using assms
  by (auto simp: update_chat_def update_chat_fields_def catch500s_def Let_def
        split: sum.splits list.splits prod.splits dest: update_chats_wf)

lemma delete_chats_wf:
  assumes "delete_chats E s idp userId = (r, s')" and "wf_store s"
  shows "wf_store s'"
proof (cases "s' = s")
  case True
  with assms(2) show ?thesis by simp
next
  case False
  with assms(1) obtain P where s': "s' = s\<lparr> chats := filter P (chats s) \<rparr>"
    by (auto simp: delete_chats_def split: if_splits option.splits)
  from assms(2) show ?thesis unfolding s' by (auto simp: wf_store_def distinct_map_filter)
qed

lemma delete_chat_wf:
  assumes "wf_store s"
  shows "wf_store (snd (delete_chat E s idp em))"
  using assms
  by (auto simp: delete_chat_def catch500s_def Let_def split: sum.splits list.splits prod.splits
        dest: delete_chats_wf)

text \<open>
  Registration and login together: a signup that is answered 201 stores the hash that
  bcrypt made of the password, and the login of that account is then decided by the
  password alone; a second signup with the same email is answered 400.
\<close>

lemma signup_registers:
  assumes "get_prop reqBody (js ''email'') = Inr (JStr e)"
    and "get_prop reqBody (js ''password'') = Inr (JStr p)"
    and "signup E s reqBody = (Resp 201 m, s')"
    and "\<forall>u\<in>set (hashf E (salt E) p). \<not> is_high u \<and> \<not> is_low u" and "length (hashf E (salt E) p) \<le> 255"
  shows "\<exists>u. users s' = users s @ [u] \<and> email u \<notin> email ` set (users s)
          \<and> js_of (password u) = hashf E (salt E) p
          \<and> (length (to_pg e) \<le> 255 \<longrightarrow> email u = to_pg e)"
proof -
  let ?h = "hashf E (salt E) p"
  from assms(3) signup_object [OF assms(1,2), of E s]
  obtain x where ins: "insert_user E s (JStr e) (JStr ?h) = (Inr x, s')"
    by (auto simp: signup_try_def split: sum.splits prod.splits)
  then have nn: "0 \<notin> set e" "0 \<notin> set ?h"
    by (auto simp: insert_user_def bind_param_def bind_text_def Let_def
          split: if_splits sum.splits option.splits)
  then have bp: "bind_param E (JStr e) = Inr (Some (to_pg e))" "bind_param E (JStr ?h) = Inr (Some (to_pg ?h))"
    by (simp_all add: bind_param_JStr)
  from assms(4) have "length (to_pg ?h) = length ?h" by (intro length_to_pg_plain) simp
  with assms(5) have vh: "nullable_varchar255 (Some (to_pg ?h)) = Inr (Some (to_pg ?h))"
    by (intro nullable_varchar255_short) simp
  from assms(4) nn(2) have rt: "js_of (to_pg ?h) = ?h" by (intro js_of_to_pg_plain) auto
  from insert_user_Inr [OF ins] bp vh obtain e' where
    e': "e' \<notin> email ` set (users s)" "nullable_varchar255 (Some (to_pg e)) = Inr (Some e')"
    and s': "s' = s\<lparr> users_seq := users_seq s + 1,
                     users := users s @ [\<lparr> users_id = users_seq s, email = e', password = to_pg ?h \<rparr>] \<rparr>"
    by auto
  from e'(2) have "length (to_pg e) \<le> 255 \<longrightarrow> e' = to_pg e"
    by (auto simp: nullable_varchar255_short)
  with e'(1) s' rt show ?thesis by simp
qed

lemma signup_twice:
  assumes "get_prop reqBody (js ''email'') = Inr (JStr e)"
    and "get_prop reqBody (js ''password'') = Inr pw"
    and "get_prop reqBody' (js ''email'') = Inr (JStr e)"
    and "get_prop reqBody' (js ''password'') = Inr pw'"
    and "signup E s reqBody = (Resp 201 m, s')"
  shows "fst (signup E' s' reqBody') = Resp 400 (Error ''User already exists or invalid data'')"
proof -
  from assms(5) signup_object [OF assms(1,2), of E s]
  obtain x h where ins: "insert_user E s (JStr e) (JStr h) = (Inr x, s')"
    by (auto simp: signup_try_def split: sum.splits prod.splits)
  then have nn: "0 \<notin> set e"
    by (auto simp: insert_user_def bind_param_def bind_text_def Let_def
          split: if_splits sum.splits option.splits)
  then have bp: "bind_param E (JStr e) = Inr (Some (to_pg e))" "bind_param E' (JStr e) = Inr (Some (to_pg e))"
    by (simp_all add: bind_param_JStr)
  from insert_user_Inr [OF ins] bp obtain e' p where
    e': "nullable_varchar255 (Some (to_pg e)) = Inr (Some e')"
    and s': "s' = s\<lparr> users_seq := users_seq s + 1,
                     users := users s @ [\<lparr> users_id = users_seq s, email = e', password = p \<rparr>] \<rparr>"
    by auto
  from s' have dup: "e' \<in> email ` set (users s')" by simp
  have "\<exists>err s''. insert_user E' s' (JStr e) v = (Inl err, s'')" for v
    using bp(2) e' dup
    by (auto simp: insert_user_def Let_def split: sum.splits option.splits)
  then have ins2: "\<exists>err s''. insert_user E' s' (JStr e) v = (Inl err, s'')" for v .
  have "\<exists>err s''. signup_try E' s' (JStr e) pw' = (Inl err, s'')"
  proof (cases "bcrypt_hash E' pw'")
    case (Inl x)
    then show ?thesis by (simp add: signup_try_def)
  next
    case (Inr h)
    from ins2 [of "JStr h"] obtain err s'' where "insert_user E' s' (JStr e) (JStr h) = (Inl err, s'')"
      by blast
    with Inr show ?thesis by (simp add: signup_try_def)
  qed
  with signup_object [OF assms(3,4), of E' s'] show ?thesis by auto
qed

end
